theory Spec2Isabelle
  imports Main "HOL-Library.Word"
begin

unbundle bit_operations_syntax

section \<open>Primitives of the Node.js runtime used by the services\<close>

text \<open>
  Strings are byte strings (\<open>char list\<close>); \<open>Buffer.from(s)\<close> and
  \<open>createHash(..).update(s)\<close> read a string as its bytes.  Timestamps are
  \<open>Date.now()\<close> values: milliseconds since the epoch, never negative.  Every
  operation takes the instant \<open>now\<close> at which it runs as an argument.
\<close>

type_synonym byte = "8 word"
type_synonym u32 = "32 word"

definition Buffer_from :: "string \<Rightarrow> byte list" where
  "Buffer_from s = map (\<lambda>c. of_nat (of_char c)) s"

definition hex_digit :: "nat \<Rightarrow> char" where
  "hex_digit n = ''0123456789abcdef'' ! (n mod 16)"

text \<open>\<open>buf.toString('hex')\<close>: two lower-case digits for every byte.\<close>

definition toString_hex :: "byte list \<Rightarrow> string" where
  "toString_hex bs = concat (map (\<lambda>b. [hex_digit (unat b div 16), hex_digit (unat b mod 16)]) bs)"

subsection \<open>SHA-256 (\<open>createHash('sha256')\<close>)\<close>

definition rotr :: "nat \<Rightarrow> u32 \<Rightarrow> u32" where
  "rotr n x = (drop_bit n x) OR (push_bit (32 - n) x)"

definition sha256_K :: "u32 list" where
  "sha256_K =
    [1116352408, 1899447441, 3049323471, 3921009573, 961987163, 1508970993, 2453635748, 2870763221,
     3624381080, 310598401, 607225278, 1426881987, 1925078388, 2162078206, 2614888103, 3248222580,
     3835390401, 4022224774, 264347078, 604807628, 770255983, 1249150122, 1555081692, 1996064986,
     2554220882, 2821834349, 2952996808, 3210313671, 3336571891, 3584528711, 113926993, 338241895,
     666307205, 773529912, 1294757372, 1396182291, 1695183700, 1986661051, 2177026350, 2456956037,
     2730485921, 2820302411, 3259730800, 3345764771, 3516065817, 3600352804, 4094571909, 275423344,
     430227734, 506948616, 659060556, 883997877, 958139571, 1322822218, 1537002063, 1747873779,
     1955562222, 2024104815, 2227730452, 2361852424, 2428436474, 2756734187, 3204031479, 3329325298]"

definition be64 :: "nat \<Rightarrow> byte list" where
  "be64 n = map (\<lambda>i. ucast (drop_bit (8 * (7 - i)) (of_nat n :: 64 word))) [0..<8]"

definition sha256_pad :: "byte list \<Rightarrow> byte list" where
  "sha256_pad m = m @ [128] @ replicate ((119 - length m mod 64) mod 64) 0 @ be64 (8 * length m)"

fun be_words :: "byte list \<Rightarrow> u32 list" where
  "be_words (a # b # c # d # rest) =
     (push_bit 24 (ucast a) OR push_bit 16 (ucast b) OR push_bit 8 (ucast c) OR ucast d) # be_words rest"
| "be_words _ = []"

fun chunks :: "nat \<Rightarrow> u32 list \<Rightarrow> u32 list list" where
  "chunks 0 xs = []"
| "chunks (Suc n) xs = (if xs = [] then [] else take 16 xs # chunks n (drop 16 xs))"

text \<open>The message schedule, newest word first: \<open>ws ! 15\<close> is \<open>W[j-16]\<close>.\<close>

fun schedule :: "nat \<Rightarrow> u32 list \<Rightarrow> u32 list" where
  "schedule 0 ws = ws"
| "schedule (Suc n) ws =
     schedule n ((ws ! 15
       + (rotr 7 (ws ! 14) XOR rotr 18 (ws ! 14) XOR drop_bit 3 (ws ! 14))
       + ws ! 6
       + (rotr 17 (ws ! 1) XOR rotr 19 (ws ! 1) XOR drop_bit 10 (ws ! 1))) # ws)"

record sha256_state =
  sa :: u32
  sb :: u32
  sc :: u32
  sd :: u32
  se :: u32
  sf :: u32
  sg :: u32
  sh :: u32

definition sha256_H0 :: sha256_state where
  "sha256_H0 = \<lparr>sa = 1779033703, sb = 3144134277, sc = 1013904242, sd = 2773480762,
                 se = 1359893119, sf = 2600822924, sg = 528734635, sh = 1541459225\<rparr>"

definition sha256_round :: "sha256_state \<Rightarrow> u32 \<times> u32 \<Rightarrow> sha256_state" where
  "sha256_round s kw =
     (let t1 = sh s + (rotr 6 (se s) XOR rotr 11 (se s) XOR rotr 25 (se s))
                + ((se s AND sf s) XOR (NOT (se s) AND sg s)) + fst kw + snd kw;
          t2 = (rotr 2 (sa s) XOR rotr 13 (sa s) XOR rotr 22 (sa s))
                + ((sa s AND sb s) XOR (sa s AND sc s) XOR (sb s AND sc s))
      in \<lparr>sa = t1 + t2, sb = sa s, sc = sb s, sd = sc s,
          se = sd s + t1, sf = se s, sg = sf s, sh = sg s\<rparr>)"

definition compress :: "sha256_state \<Rightarrow> u32 list \<Rightarrow> sha256_state" where
  "compress s block =
     (let r = foldl sha256_round s (zip sha256_K (rev (schedule 48 (rev block))))
      in \<lparr>sa = sa s + sa r, sb = sb s + sb r, sc = sc s + sc r, sd = sd s + sd r,
          se = se s + se r, sf = sf s + sf r, sg = sg s + sg r, sh = sh s + sh r\<rparr>)"

definition be32 :: "u32 \<Rightarrow> byte list" where
  "be32 w = [ucast (drop_bit 24 w), ucast (drop_bit 16 w), ucast (drop_bit 8 w), ucast w]"

definition sha256 :: "byte list \<Rightarrow> byte list" where
  "sha256 m =
     (let ws = be_words (sha256_pad m);
          s = foldl compress sha256_H0 (chunks (length ws) ws)
      in be32 (sa s) @ be32 (sb s) @ be32 (sc s) @ be32 (sd s)
         @ be32 (se s) @ be32 (sf s) @ be32 (sg s) @ be32 (sh s))"

text \<open>\<open>createHash('sha256').update(s).digest()\<close> and \<open>.digest('hex')\<close>.\<close>

definition sha256_digest :: "string \<Rightarrow> byte list" where
  "sha256_digest s = sha256 (Buffer_from s)"

definition sha256_hex :: "string \<Rightarrow> string" where
  "sha256_hex s = toString_hex (sha256_digest s)"

subsection \<open>Exceptions\<close>

text \<open>
  The exceptions the services raise, by what they are raised for; \<open>status\<close> is the
  HTTP status the \<open>Exception\<close> carries.
\<close>

datatype error =
    InvalidOrExpiredToken    \<comment> \<open>\<open>Exception('Token invalido ou expirado', {status: 400})\<close>\<close>
  | InvalidCredentials       \<comment> \<open>\<open>Exception('Credenciais invalidas', {status: 401})\<close>\<close>
  | AccountBlocked           \<comment> \<open>\<open>Exception('Conta temporariamente bloqueada ...', {status: 403})\<close>\<close>
  | RateLimited nat          \<comment> \<open>\<open>Exception('Muitas tentativas de login ...', {status: 429})\<close>, with the attempts remaining\<close>
  | InactiveUser             \<comment> \<open>\<open>Exception('Usuario inativo', {status: 403})\<close>\<close>
  | UserNotFound             \<comment> \<open>\<open>Exception('Usuario nao encontrado', {status: 404})\<close>\<close>
  | E_ROW_NOT_FOUND          \<comment> \<open>raised by \<open>firstOrFail\<close>, status 404\<close>
  | E_INVALID_CREDENTIALS    \<comment> \<open>raised by \<open>verifyCredentials\<close> of the auth finder mixin, status 400\<close>
  | ERR_CRYPTO_TIMING_SAFE_EQUAL_LENGTH  \<comment> \<open>the \<open>RangeError\<close> of \<open>timingSafeEqual\<close>\<close>
  | ERR_INVALID_ARG_TYPE     \<comment> \<open>the \<open>TypeError\<close> of \<open>Buffer.from\<close> on a value that is no string\<close>

fun status :: "error \<Rightarrow> nat" where
  "status InvalidOrExpiredToken = 400"
| "status InvalidCredentials = 401"
| "status AccountBlocked = 403"
| "status (RateLimited n) = 429"
| "status InactiveUser = 403"
| "status UserNotFound = 404"
| "status E_ROW_NOT_FOUND = 404"
| "status E_INVALID_CREDENTIALS = 400"
| "status ERR_CRYPTO_TIMING_SAFE_EQUAL_LENGTH = 500"
| "status ERR_INVALID_ARG_TYPE = 500"

text \<open>\<open>crypto.timingSafeEqual(a, b)\<close> raises when the byte lengths differ.\<close>

definition timingSafeEqual :: "byte list \<Rightarrow> byte list \<Rightarrow> error + bool" where
  "timingSafeEqual a b =
     (if length a \<noteq> length b then Inl ERR_CRYPTO_TIMING_SAFE_EQUAL_LENGTH else Inr (a = b))"

text \<open>\<open>try { body } catch (error) { handler }\<close>.\<close>

definition try_catch :: "error + 'a \<Rightarrow> (error \<Rightarrow> error + 'a) \<Rightarrow> error + 'a" where
  "try_catch body handler = (case body of Inl e \<Rightarrow> handler e | Inr v \<Rightarrow> Inr v)"

text \<open>\<open>randomBytes(16)\<close>: the 128 bits drawn are an argument of the model.\<close>

definition randomBytes16 :: "128 word \<Rightarrow> byte list" where
  "randomBytes16 entropy = map (\<lambda>i. ucast (drop_bit (8 * (15 - i)) entropy)) [0..<16]"


text \<open>
  \<open>s.trim()\<close> and \<open>s.toLowerCase()\<close> on the ASCII range (the white space
  characters tab, line feed, vertical tab, form feed, carriage return and space; the
  letters A to Z).
\<close>

definition isSpace :: "char \<Rightarrow> bool" where
  "isSpace c = ((of_char c :: nat) \<in> {9, 10, 11, 12, 13, 32})"

definition trim :: "string \<Rightarrow> string" where
  "trim s = rev (dropWhile isSpace (rev (dropWhile isSpace s)))"

definition toLowerCase :: "string \<Rightarrow> string" where
  "toLowerCase s =
     map (\<lambda>c. let n = (of_char c :: nat) in if 65 \<le> n \<and> n \<le> 90 then char_of (n + 32) else c) s"

section \<open>Data model\<close>

text \<open>
  The \<open>User\<close> model (Lucid, with the auth finder mixin on the column \<open>email\<close>).
  \<open>hash.make\<close> (scrypt) is modelled as an opaque digest that verifies exactly the
  password it was made from; the salt is left out.
\<close>

datatype pwhash = Scrypt string

definition hash_verify :: "pwhash \<Rightarrow> string \<Rightarrow> bool" where
  "hash_verify h plain = (h = Scrypt plain)"

record user =
  id :: nat
  email :: "string option"
  name :: string
  username :: string
  isActive :: bool
  isDeleted :: "bool option"
  password :: pwhash
  emailVerifiedAt :: "nat option"
  lastLoginAt :: "nat option"
  lastIp :: "string option"

text \<open>The \<open>RateLimitData\<close> record that \<open>AppKeyService\<close> keeps in its cache.\<close>

record RateLimitData =
  attempts :: nat
  firstAttempt :: nat
  dataBlockedUntil :: "nat option"

text \<open>
  Values that \<open>CacheService\<close> holds, and the \<open>ttl\<close> arguments: the strings
  \<open>'24h'\<close>, \<open>'15m'\<close>, \<open>'7200s'\<close>, or a number of milliseconds.
\<close>

datatype cval =
    VString string
  | VNumber nat
  | VUser user

datatype duration = Hours nat | Minutes nat | Seconds nat | Millis nat

fun ms_of :: "duration \<Rightarrow> nat" where
  "ms_of (Hours n) = n * 3600000"
| "ms_of (Minutes n) = n * 60000"
| "ms_of (Seconds n) = n * 1000"
| "ms_of (Millis n) = n"

record 'v entry =
  val :: 'v
  expiresAt :: nat

type_synonym 'v store = "string \<rightharpoonup> 'v entry"

text \<open>The messages handed to \<open>EmailService.send\<close>, by the template they are built from.\<close>

datatype mail_body =
    VerificationCode string          \<comment> \<open>\<open>sendVerificationEmail\<close>, carries the token\<close>
  | ResetCode string                 \<comment> \<open>\<open>sendResetEmail\<close>, carries the token\<close>
  | PasswordChanged string           \<comment> \<open>\<open>sendSuccessEmail\<close>, carries the ip\<close>
  | ResetAttemptsExceeded string     \<comment> \<open>\<open>sendBlockedNotification\<close>, carries the ip\<close>
  | AccountBlockedNotice string string  \<comment> \<open>\<open>sendAccountBlockedEmail\<close>, carries the user name and the ip\<close>

record mail =
  to :: string
  body :: mail_body

text \<open>
  Calls that leave the services: the journal lists them in the order they are made.
\<close>

datatype effect =
    RateLimiter_check_called string string
  | RateLimiter_recordAttempt_called string string
  | RateLimiter_clearAttempts_called string string
  | EmailService_send_called mail

record accessToken =
  tokenableId :: nat
  tokenName :: string
  expiresIn :: nat

record state =
  cache :: "cval store"
  users :: "user list"
  accessTokens :: "accessToken list"
  journal :: "effect list"

section \<open>The key-value cache\<close>

text \<open>
  Modelled from the spec: the cache engine and its wrapper \<open>CacheService\<close>
  (\<open>start/cache\<close>) are external; the spec gives the contract: \<open>get(key)\<close> returns the
  value or absent, \<open>set(key, value, ttl)\<close>, \<open>delete(key)\<close>, and a TTL is the
  duration after which a cached entry is treated as absent.  An entry set at \<open>now\<close> is
  present at every instant before \<open>now + ttl\<close>.
\<close>

definition cache_get :: "'v store \<Rightarrow> nat \<Rightarrow> string \<Rightarrow> 'v option" where
  \<comment> \<open>Modelled from the spec: \<open>get\<close> of the TTL-keyed store.\<close>
  "cache_get c now key =
     (case c key of
        None \<Rightarrow> None
      | Some e \<Rightarrow> if now < expiresAt e then Some (val e) else None)"

definition cache_set :: "'v store \<Rightarrow> nat \<Rightarrow> string \<Rightarrow> 'v \<Rightarrow> duration \<Rightarrow> 'v store" where
  \<comment> \<open>Modelled from the spec: \<open>set\<close> of the TTL-keyed store.\<close>
  "cache_set c now key v ttl = c(key \<mapsto> \<lparr>val = v, expiresAt = now + ms_of ttl\<rparr>)"

definition cache_delete :: "'v store \<Rightarrow> string \<Rightarrow> 'v store" where
  \<comment> \<open>Modelled from the spec: \<open>delete\<close> of the TTL-keyed store.\<close>
  "cache_delete c key = c(key := None)"

definition CacheService_get :: "state \<Rightarrow> nat \<Rightarrow> string \<Rightarrow> cval option" where
  \<comment> \<open>Modelled from the spec: \<open>CacheService.get\<close>.\<close>
  "CacheService_get s now key = cache_get (cache s) now key"

definition CacheService_set :: "state \<Rightarrow> nat \<Rightarrow> string \<Rightarrow> cval \<Rightarrow> duration \<Rightarrow> state" where
  \<comment> \<open>Modelled from the spec: \<open>CacheService.set\<close>.\<close>
  "CacheService_set s now key v ttl = s\<lparr>cache := cache_set (cache s) now key v ttl\<rparr>"

definition CacheService_delete :: "state \<Rightarrow> string \<Rightarrow> state" where
  \<comment> \<open>Modelled from the spec: \<open>CacheService.delete\<close>.\<close>
  "CacheService_delete s key = s\<lparr>cache := cache_delete (cache s) key\<rparr>"

text \<open>JavaScript truthiness of a cached value: \<open>!v\<close> holds for \<open>''\<close> and \<open>0\<close>.\<close>

fun falsy :: "cval \<Rightarrow> bool" where
  "falsy (VString s) = (s = [])"
| "falsy (VNumber n) = (n = 0)"
| "falsy (VUser u) = False"

text \<open>A cached number; these keys never hold anything else.\<close>

definition get_number :: "state \<Rightarrow> nat \<Rightarrow> string \<Rightarrow> nat option" where
  "get_number s now key =
     (case CacheService_get s now key of Some (VNumber n) \<Rightarrow> Some n | _ \<Rightarrow> None)"

definition EmailService_send :: "state \<Rightarrow> mail \<Rightarrow> state" where
  \<comment> \<open>Modelled from the spec: \<open>EmailService\<close> (\<open>services/app_email_service\<close>) is missing;
      the spec (6) has \<open>send({to, subject, body, isHtml})\<close>, fire-and-forget.  The message
      handed over is entered in the journal.\<close>
  "EmailService_send s m = s\<lparr>journal := journal s @ [EmailService_send_called m]\<rparr>"

section \<open>RateLimiter\<close>

text \<open>
  Modelled from the spec: \<open>RateLimiter\<close> (\<open>services/security/rate_limiter\<close>) is
  missing.  The spec (4.2) gives the algorithm, parameterised by
  \<open>{maxAttempts, windowDuration, blockDuration}\<close>, over a state
  \<open>{attempts, windowStart, blockedUntil}\<close> per \<open>(identifier, ip)\<close>.  The attempts
  counter is the number that \<open>LoginProtectionService.getFailedAttempts\<close> reads back at
  \<open>ratelimit:attempts:<identifier>:<ip>\<close>; the window start and the block are kept at
  sibling keys.  Every call is entered in the journal.
\<close>

record RateLimitConfig =
  maxAttempts :: nat
  windowMs :: nat
  blockTimeMs :: nat

record RateLimitResult =
  allowed :: bool
  attemptsRemaining :: nat
  blockedUntil :: "nat option"

definition attemptsKey :: "string \<Rightarrow> string \<Rightarrow> string" where
  "attemptsKey identifier ip = ''ratelimit:attempts:'' @ identifier @ '':'' @ ip"

definition windowKey :: "string \<Rightarrow> string \<Rightarrow> string" where
  "windowKey identifier ip = ''ratelimit:window:'' @ identifier @ '':'' @ ip"

definition blockedKey :: "string \<Rightarrow> string \<Rightarrow> string" where
  "blockedKey identifier ip = ''ratelimit:blocked:'' @ identifier @ '':'' @ ip"

definition windowExpired :: "state \<Rightarrow> nat \<Rightarrow> string \<Rightarrow> string \<Rightarrow> RateLimitConfig \<Rightarrow> bool" where
  \<comment> \<open>Modelled from the spec: the window has expired when \<open>now - windowStart > windowDuration\<close>.\<close>
  "windowExpired s now identifier ip config =
     (case get_number s now (windowKey identifier ip) of
        None \<Rightarrow> False
      | Some windowStart \<Rightarrow> int now - int windowStart > int (windowMs config))"

definition deleteRecord :: "state \<Rightarrow> string \<Rightarrow> string \<Rightarrow> state" where
  \<comment> \<open>Modelled from the spec: the record of \<open>(identifier, ip)\<close> is deleted entirely.\<close>
  "deleteRecord s identifier ip =
     CacheService_delete
       (CacheService_delete
          (CacheService_delete s (attemptsKey identifier ip))
          (windowKey identifier ip))
       (blockedKey identifier ip)"

definition RateLimiter_check ::
  "state \<Rightarrow> nat \<Rightarrow> string \<Rightarrow> string \<Rightarrow> RateLimitConfig \<Rightarrow> RateLimitResult \<times> state" where
  \<comment> \<open>Modelled from the spec: blocked and unexpired gives \<open>allowed = false\<close>; an expired
      window is treated as fresh (the record is deleted); otherwise
      \<open>allowed = attempts < maxAttempts\<close>.\<close>
  "RateLimiter_check s now identifier ip config =
     (let s1 = s\<lparr>journal := journal s @ [RateLimiter_check_called identifier ip]\<rparr>;
          blocked = (case get_number s1 now (blockedKey identifier ip) of
                       None \<Rightarrow> None
                     | Some b \<Rightarrow> if now < b then Some b else None)
      in case blocked of
           Some b \<Rightarrow> (\<lparr>allowed = False, attemptsRemaining = 0, blockedUntil = Some b\<rparr>, s1)
         | None \<Rightarrow>
             if windowExpired s1 now identifier ip config
             then (\<lparr>allowed = 0 < maxAttempts config, attemptsRemaining = maxAttempts config,
                    blockedUntil = None\<rparr>,
                   deleteRecord s1 identifier ip)
             else
               (let n = (case get_number s1 now (attemptsKey identifier ip) of
                           None \<Rightarrow> 0 | Some a \<Rightarrow> a)
                in (\<lparr>allowed = n < maxAttempts config,
                     attemptsRemaining = maxAttempts config - n,
                     blockedUntil = None\<rparr>, s1)))"

definition RateLimiter_recordAttempt ::
  "state \<Rightarrow> nat \<Rightarrow> string \<Rightarrow> string \<Rightarrow> RateLimitConfig \<Rightarrow> state" where
  \<comment> \<open>Modelled from the spec: increments attempts, creating the state with
      \<open>windowStart = now\<close> if absent or expired; when the increment reaches
      \<open>maxAttempts\<close>, sets \<open>blockedUntil = now + blockDuration\<close> with the TTL
      \<open>blockDuration\<close>; otherwise the TTL is \<open>windowDuration\<close>.\<close>
  "RateLimiter_recordAttempt s now identifier ip config =
     (let s1 = s\<lparr>journal := journal s @ [RateLimiter_recordAttempt_called identifier ip]\<rparr>;
          stored = (if windowExpired s1 now identifier ip config then None
                    else case (get_number s1 now (attemptsKey identifier ip),
                               get_number s1 now (windowKey identifier ip)) of
                           (Some a, Some w) \<Rightarrow> Some (a, w)
                         | _ \<Rightarrow> None);
          n = (case stored of None \<Rightarrow> 1 | Some (a, w) \<Rightarrow> a + 1);
          windowStart = (case stored of None \<Rightarrow> now | Some (a, w) \<Rightarrow> w)
      in if n \<ge> maxAttempts config
         then
           CacheService_set
             (CacheService_set
                (CacheService_set s1 now (attemptsKey identifier ip) (VNumber n)
                   (Millis (blockTimeMs config)))
                now (windowKey identifier ip) (VNumber windowStart) (Millis (blockTimeMs config)))
             now (blockedKey identifier ip) (VNumber (now + blockTimeMs config))
             (Millis (blockTimeMs config))
         else
           CacheService_set
             (CacheService_set s1 now (attemptsKey identifier ip) (VNumber n)
                (Millis (windowMs config)))
             now (windowKey identifier ip) (VNumber windowStart) (Millis (windowMs config)))"

definition RateLimiter_clearAttempts :: "state \<Rightarrow> string \<Rightarrow> string \<Rightarrow> state" where
  \<comment> \<open>Modelled from the spec: deletes the state entirely.\<close>
  "RateLimiter_clearAttempts s identifier ip =
     deleteRecord (s\<lparr>journal := journal s @ [RateLimiter_clearAttempts_called identifier ip]\<rparr>)
       identifier ip"


section \<open>TokenService\<close>

record TokenGenerationResult =
  token :: string
  hash :: string

definition generateSecureToken :: "128 word \<Rightarrow> TokenGenerationResult" where
  "generateSecureToken entropy =
     (let token = toString_hex (randomBytes16 entropy);
          hash = sha256_hex token
      in \<lparr>token = token, hash = hash\<rparr>)"

definition storeTokenHash :: "state \<Rightarrow> nat \<Rightarrow> string \<Rightarrow> string \<Rightarrow> duration \<Rightarrow> state" where
  "storeTokenHash s now key hash' ttl = CacheService_set s now key (VString hash') ttl"

text \<open>
  \<open>validateToken\<close> takes \<open>{identifier, token, cacheKey}\<close>.  It returns \<open>true\<close> or
  raises; \<open>Buffer.from\<close> raises on a stored value that is no string.
\<close>

definition validateToken :: "state \<Rightarrow> nat \<Rightarrow> string \<Rightarrow> string \<Rightarrow> string \<Rightarrow> error + bool" where
  "validateToken s now identifier token' cacheKey =
     (case CacheService_get s now cacheKey of
        None \<Rightarrow> Inl InvalidOrExpiredToken
      | Some storedHash \<Rightarrow>
          if falsy storedHash then Inl InvalidOrExpiredToken
          else
            (let providedHash = sha256_hex token'
             in case storedHash of
                  VString stored \<Rightarrow>
                    (case timingSafeEqual (Buffer_from stored) (Buffer_from providedHash) of
                       Inl e \<Rightarrow> Inl e
                     | Inr equal \<Rightarrow> if \<not> equal then Inl InvalidOrExpiredToken else Inr True)
                | _ \<Rightarrow> Inl ERR_INVALID_ARG_TYPE))"

section \<open>AppKeyService\<close>

definition AppKey_MAX_ATTEMPTS :: nat where "AppKey_MAX_ATTEMPTS = 5"
definition RATE_LIMIT_WINDOW :: nat where "RATE_LIMIT_WINDOW = 60"
definition BLOCK_DURATION :: nat where "BLOCK_DURATION = 900"

definition safeCompare :: "string \<Rightarrow> string \<Rightarrow> error + bool" where
  "safeCompare expected provided =
     try_catch
       (let expectedHash = sha256_digest expected;
            providedHash = sha256_digest provided
        in timingSafeEqual expectedHash providedHash)
       (\<lambda>error. Inr False)"

text \<open>
  The limiter of key usage keeps one \<open>RateLimitData\<close> record per \<open>(ip, key)\<close> in the
  \<open>cache\<close> service, under \<open>rate_limit:<ip>:<key>\<close>.  \<open>checkRateLimit\<close> answers
  \<open>false\<close> when there is no record and when the window has expired (it then deletes the
  record), and \<open>true\<close> otherwise.
\<close>

definition rateKey :: "string \<Rightarrow> string \<Rightarrow> string" where
  "rateKey ip key = ''rate_limit:'' @ ip @ '':'' @ key"

definition checkRateLimit ::
  "RateLimitData store \<Rightarrow> nat \<Rightarrow> string \<Rightarrow> string \<Rightarrow> bool \<times> RateLimitData store" where
  "checkRateLimit c now ip key =
     (case cache_get c now (rateKey ip key) of
        None \<Rightarrow> (False, c)
      | Some data \<Rightarrow>
          (let expired = int now - int (firstAttempt data) > int (RATE_LIMIT_WINDOW * 1000)
           in if expired then (False, cache_delete c (rateKey ip key)) else (True, c)))"

definition incrementRateLimit ::
  "RateLimitData store \<Rightarrow> nat \<Rightarrow> string \<Rightarrow> string \<Rightarrow> RateLimitData store" where
  "incrementRateLimit c now ip key =
     (case cache_get c now (rateKey ip key) of
        None \<Rightarrow>
          cache_set c now (rateKey ip key)
            \<lparr>attempts = 1, firstAttempt = now, dataBlockedUntil = None\<rparr> (Minutes 1)
      | Some data \<Rightarrow>
          (let attempts = attempts data + 1;
               shouldBlock = attempts \<ge> AppKey_MAX_ATTEMPTS
           in cache_set c now (rateKey ip key)
                \<lparr>attempts = attempts, firstAttempt = firstAttempt data,
                 dataBlockedUntil = (if shouldBlock then Some (now + BLOCK_DURATION * 1000) else None)\<rparr>
                (if shouldBlock then Minutes 15 else Minutes 1)))"

section \<open>LoginProtectionService\<close>

definition MAX_ATTEMPTS :: nat where "MAX_ATTEMPTS = 5"
definition WINDOW_MS :: nat where "WINDOW_MS = 15 * 60 * 1000"
definition BLOCK_TIME_MS :: nat where "BLOCK_TIME_MS = 30 * 60 * 1000"
definition EXTENDED_BLOCK_TIME_MS :: nat where "EXTENDED_BLOCK_TIME_MS = 2 * 60 * 60 * 1000"

definition RATE_LIMIT_CONFIG :: RateLimitConfig where
  "RATE_LIMIT_CONFIG =
     \<lparr>maxAttempts = MAX_ATTEMPTS, windowMs = WINDOW_MS, blockTimeMs = BLOCK_TIME_MS\<rparr>"

record LoginProtectionResult = RateLimitResult +
  isBlocked :: bool

definition getAccountBlockKey :: "string \<Rightarrow> string" where
  "getAccountBlockKey identifier = ''account:blocked:'' @ identifier"

definition isAccountBlocked :: "state \<Rightarrow> nat \<Rightarrow> string \<Rightarrow> bool" where
  "isAccountBlocked s now identifier =
     (case get_number s now (getAccountBlockKey identifier) of
        None \<Rightarrow> False
      | Some until \<Rightarrow> now < until)"

definition getFailedAttempts :: "state \<Rightarrow> nat \<Rightarrow> string \<Rightarrow> string \<Rightarrow> nat" where
  "getFailedAttempts s now identifier ip =
     (case get_number s now (''ratelimit:attempts:login:'' @ identifier @ '':'' @ ip) of
        None \<Rightarrow> 0
      | Some n \<Rightarrow> n)"

definition blockAccount :: "state \<Rightarrow> nat \<Rightarrow> string \<Rightarrow> state" where
  "blockAccount s now identifier =
     (let blockedUntil = now + EXTENDED_BLOCK_TIME_MS
      in CacheService_set s now (getAccountBlockKey identifier) (VNumber blockedUntil)
           (Seconds (EXTENDED_BLOCK_TIME_MS div 1000)))"

definition sendAccountBlockedEmail :: "state \<Rightarrow> string \<Rightarrow> string \<Rightarrow> string \<Rightarrow> state" where
  "sendAccountBlockedEmail s userName email' ip =
     EmailService_send s \<lparr>to = email', body = AccountBlockedNotice userName ip\<rparr>"

definition clearLoginAttempts :: "state \<Rightarrow> string \<Rightarrow> string \<Rightarrow> state" where
  "clearLoginAttempts s identifier ip = RateLimiter_clearAttempts s (''login:'' @ identifier) ip"

definition checkLoginAttempt ::
  "state \<Rightarrow> nat \<Rightarrow> string \<Rightarrow> string \<Rightarrow> LoginProtectionResult \<times> state" where
  "checkLoginAttempt s now identifier ip =
     (let (rateLimitCheck, s1) =
            RateLimiter_check s now (''login:'' @ identifier) ip RATE_LIMIT_CONFIG;
          isBlocked = isAccountBlocked s1 now identifier
      in if isBlocked
         then
           (let blockedUntil = get_number s1 now (getAccountBlockKey identifier)
            in (\<lparr>allowed = False, attemptsRemaining = 0,
                 blockedUntil = (case blockedUntil of
                                   None \<Rightarrow> None
                                 | Some b \<Rightarrow> if b = 0 then None else Some b),
                 isBlocked = True\<rparr>, s1))
         else
           (\<lparr>allowed = allowed rateLimitCheck,
             attemptsRemaining = attemptsRemaining rateLimitCheck,
             blockedUntil = blockedUntil rateLimitCheck,
             isBlocked = False\<rparr>, s1))"

text \<open>
  \<open>recordLoginAttempt\<close> takes \<open>{identifier, ip, success, userName?, userEmail?}\<close>;
  an omitted or \<open>null\<close> name or e-mail is \<open>None\<close>.
\<close>

definition recordLoginAttempt ::
  "state \<Rightarrow> nat \<Rightarrow> string \<Rightarrow> string \<Rightarrow> bool \<Rightarrow> string option \<Rightarrow> string option \<Rightarrow> state" where
  "recordLoginAttempt s now identifier ip success userName userEmail =
     (if success then clearLoginAttempts s identifier ip
      else
        (let s1 = RateLimiter_recordAttempt s now (''login:'' @ identifier) ip RATE_LIMIT_CONFIG;
             attempts = getFailedAttempts s1 now identifier ip
         in if attempts \<ge> MAX_ATTEMPTS
            then
              (let s2 = blockAccount s1 now identifier
               in case (userEmail, userName) of
                    (Some e, Some n) \<Rightarrow>
                      if e \<noteq> [] \<and> n \<noteq> [] then sendAccountBlockedEmail s2 n e ip else s2
                  | _ \<Rightarrow> s2)
            else s1))"


section \<open>The user table and the user cache\<close>

text \<open>
  The Lucid queries the services run: \<open>User.query().where('email', e)\<close>,
  \<open>.orWhere('username', e)\<close>, \<open>.first()\<close>, \<open>.firstOrFail()\<close> and
  \<open>user.save()\<close>, over the rows in table order.  A \<open>null\<close> e-mail matches nothing.
\<close>

definition where_email :: "state \<Rightarrow> string \<Rightarrow> user list" where
  "where_email s e = filter (\<lambda>u. email u = Some e) (users s)"

definition where_email_orWhere_username :: "state \<Rightarrow> string \<Rightarrow> user list" where
  "where_email_orWhere_username s e = filter (\<lambda>u. email u = Some e \<or> username u = e) (users s)"

fun first :: "user list \<Rightarrow> user option" where
  "first [] = None"
| "first (u # us) = Some u"

definition firstOrFail :: "user list \<Rightarrow> error + user" where
  "firstOrFail us = (case first us of None \<Rightarrow> Inl E_ROW_NOT_FOUND | Some u \<Rightarrow> Inr u)"

definition save :: "state \<Rightarrow> user \<Rightarrow> state" where
  "save s u = s\<lparr>users := map (\<lambda>v. if id v = id u then u else v) (users s)\<rparr>"

text \<open>
  \<open>User.verifyCredentials(uid, password)\<close> comes from the auth finder mixin the model
  is composed with (\<open>uids: ['email']\<close>): it returns the user whose e-mail is \<open>uid\<close>
  when the password verifies against the stored digest, and raises
  \<open>E_INVALID_CREDENTIALS\<close> otherwise.  It never returns a falsy value; the option in
  the result type is there for the test \<open>!authUser\<close> that \<open>AuthService.login\<close> makes.
\<close>

definition verifyCredentials :: "state \<Rightarrow> string \<Rightarrow> string \<Rightarrow> error + user option" where
  "verifyCredentials s uid password' =
     (if uid = [] \<or> password' = [] then Inl E_INVALID_CREDENTIALS
      else case first (where_email s uid) of
             None \<Rightarrow> Inl E_INVALID_CREDENTIALS
           | Some u \<Rightarrow>
               if hash_verify (password u) password' then Inr (Some u)
               else Inl E_INVALID_CREDENTIALS)"

fun decimal :: "nat \<Rightarrow> string" where
  "decimal n =
     (if n < 10 then [char_of (48 + n)] else decimal (n div 10) @ [char_of (48 + n mod 10)])"

declare decimal.simps [simp del]

text \<open>
  Modelled from the spec: \<open>sharedCache.user\<close> (\<open>services/shared/cache_service\<close>) is
  missing.  The spec (3, 4.5) has a per-id cache entry and a list-level entry, both
  deleted on invalidation; it does not give the spelling of the keys.
\<close>

definition userKey :: "nat \<Rightarrow> string" where
  \<comment> \<open>Modelled from the spec: the key of the per-id cache entry.\<close>
  "userKey i = ''user:'' @ decimal i"

definition listKey :: string where
  \<comment> \<open>Modelled from the spec: the key of the list-level cache entry.\<close>
  "listKey = ''users:list''"

definition invalidateUser :: "state \<Rightarrow> nat option \<Rightarrow> state" where
  \<comment> \<open>Modelled from the spec: deletes the list-level entry and, given an id, the per-id entry.\<close>
  "invalidateUser s i =
     (let s1 = CacheService_delete s listKey
      in case i of None \<Rightarrow> s1 | Some n \<Rightarrow> CacheService_delete s1 (userKey n))"

text \<open>\<open>user.email || user.username\<close>, and the default \<open>ip = 'unknown'\<close>.\<close>

definition emailOrUsername :: "user \<Rightarrow> string" where
  "emailOrUsername u =
     (case email u of None \<Rightarrow> username u | Some e \<Rightarrow> if e = [] then username u else e)"

definition ipOrUnknown :: "string option \<Rightarrow> string" where
  "ipOrUnknown ip = (case ip of None \<Rightarrow> ''unknown'' | Some a \<Rightarrow> a)"

section \<open>EmailVerificationService\<close>

text \<open>
  \<open>RATE_LIMIT_CONFIG = RateLimiter.getDefaultConfig()\<close>: the default configuration is
  part of the missing \<open>RateLimiter\<close>; it is the argument \<open>config\<close> of the two request
  operations.
\<close>

definition VERIFY_TTL :: duration where "VERIFY_TTL = Hours 24"

definition getVerifyKey :: "string \<Rightarrow> string" where
  "getVerifyKey email' = ''verify_email:'' @ email'"

definition sendVerificationEmail :: "state \<Rightarrow> user \<Rightarrow> string \<Rightarrow> state" where
  "sendVerificationEmail s u token' =
     EmailService_send s \<lparr>to = emailOrUsername u, body = VerificationCode token'\<rparr>"

definition requestEmailVerification ::
  "RateLimitConfig \<Rightarrow> state \<Rightarrow> nat \<Rightarrow> user \<Rightarrow> string option \<Rightarrow> 128 word \<Rightarrow> bool \<times> state" where
  "requestEmailVerification config s now u ip' entropy =
     (let ip = ipOrUnknown ip';
          normalizedEmail = emailOrUsername u;
          (rateLimitCheck, s1) =
             RateLimiter_check s now (''verify:'' @ toLowerCase (trim normalizedEmail)) ip config
      in if \<not> allowed rateLimitCheck then (False, s1)
         else
           (let s2 = RateLimiter_recordAttempt s1 now
                       (''verify:'' @ toLowerCase (trim normalizedEmail)) ip config;
                generated = generateSecureToken entropy;
                s3 = storeTokenHash s2 now (getVerifyKey (toLowerCase (trim normalizedEmail)))
                       (hash generated) VERIFY_TTL;
                s4 = sendVerificationEmail s3 u (token generated)
            in (True, s4)))"

definition cleanupAfterVerification :: "state \<Rightarrow> nat \<Rightarrow> string \<Rightarrow> string \<Rightarrow> state" where
  "cleanupAfterVerification s userId email' ip =
     (let s1 = invalidateUser s (Some userId);
          s2 = CacheService_delete s1 (getVerifyKey email')
      in RateLimiter_clearAttempts s2 (''verify:'' @ email') ip)"

definition verifyEmail ::
  "state \<Rightarrow> nat \<Rightarrow> string \<Rightarrow> string \<Rightarrow> string option \<Rightarrow> (error + bool) \<times> state" where
  "verifyEmail s now email' token' ip' =
     (let ip = ipOrUnknown ip';
          normalizedEmail = toLowerCase (trim email')
      in case validateToken s now normalizedEmail token' (getVerifyKey normalizedEmail) of
           Inl e \<Rightarrow> (Inl e, s)
         | Inr valid \<Rightarrow>
             (case firstOrFail (where_email s normalizedEmail) of
                Inl e \<Rightarrow> (Inl e, s)
              | Inr u \<Rightarrow>
                  (let u1 = u\<lparr>emailVerifiedAt := Some now\<rparr>;
                       s1 = save s u1;
                       s2 = cleanupAfterVerification s1 (id u1) normalizedEmail ip
                   in (Inr True, s2))))"

section \<open>PasswordService\<close>

definition RESET_TTL :: duration where "RESET_TTL = Minutes 15"

definition getResetKey :: "string \<Rightarrow> string" where
  "getResetKey email' = ''reset:'' @ email'"

definition sendResetEmail :: "state \<Rightarrow> user \<Rightarrow> string \<Rightarrow> state" where
  "sendResetEmail s u token' =
     EmailService_send s \<lparr>to = emailOrUsername u, body = ResetCode token'\<rparr>"

definition sendSuccessEmail :: "state \<Rightarrow> user \<Rightarrow> string \<Rightarrow> state" where
  "sendSuccessEmail s u ip =
     EmailService_send s \<lparr>to = emailOrUsername u, body = PasswordChanged ip\<rparr>"

definition sendBlockedNotification :: "state \<Rightarrow> user \<Rightarrow> string \<Rightarrow> state" where
  "sendBlockedNotification s u ip =
     EmailService_send s \<lparr>to = emailOrUsername u, body = ResetAttemptsExceeded ip\<rparr>"

definition inactiveOrDeleted :: "user \<Rightarrow> bool" where
  \<comment> \<open>\<open>!user.isActive || user.isDeleted\<close>\<close>
  "inactiveOrDeleted u = (\<not> isActive u \<or> isDeleted u = Some True)"

definition requestPasswordReset ::
  "RateLimitConfig \<Rightarrow> state \<Rightarrow> nat \<Rightarrow> string \<Rightarrow> string option \<Rightarrow> 128 word
     \<Rightarrow> (error + bool) \<times> state" where
  "requestPasswordReset config s now email' ip' entropy =
     (let ip = ipOrUnknown ip';
          normalizedEmail = toLowerCase (trim email')
      in case firstOrFail (where_email s normalizedEmail) of
           Inl e \<Rightarrow> (Inl e, s)
         | Inr u \<Rightarrow>
             if inactiveOrDeleted u then (Inl InactiveUser, s)
             else
               (let (rateLimitCheck, s1) =
                      RateLimiter_check s now (''reset:'' @ normalizedEmail) ip config
                in if \<not> allowed rateLimitCheck
                   then (Inr False, sendBlockedNotification s1 u ip)
                   else
                     (let s2 = RateLimiter_recordAttempt s1 now
                                 (''reset:'' @ normalizedEmail) ip config;
                          generated = generateSecureToken entropy;
                          s3 = storeTokenHash s2 now (getResetKey normalizedEmail)
                                 (hash generated) RESET_TTL;
                          s4 = sendResetEmail s3 u (token generated)
                      in (Inr True, s4))))"

definition cleanupAfterReset :: "state \<Rightarrow> nat \<Rightarrow> string \<Rightarrow> string \<Rightarrow> state" where
  "cleanupAfterReset s userId email' ip =
     (let s1 = invalidateUser s (Some userId);
          s2 = CacheService_delete s1 (getResetKey email')
      in RateLimiter_clearAttempts s2 (''reset:'' @ email') ip)"

text \<open>
  \<open>user.password = password; await user.save()\<close>: the mixin's \<open>beforeSave\<close> hook
  stores the digest of the new password.
\<close>

definition resetPassword ::
  "state \<Rightarrow> nat \<Rightarrow> string \<Rightarrow> string \<Rightarrow> string \<Rightarrow> string option \<Rightarrow> (error + bool) \<times> state" where
  "resetPassword s now email' token' password' ip' =
     (let ip = ipOrUnknown ip';
          normalizedEmail = toLowerCase (trim email')
      in case validateToken s now normalizedEmail token' (getResetKey normalizedEmail) of
           Inl e \<Rightarrow> (Inl e, s)
         | Inr valid \<Rightarrow>
             (case firstOrFail (where_email s normalizedEmail) of
                Inl e \<Rightarrow> (Inl e, s)
              | Inr u \<Rightarrow>
                  if inactiveOrDeleted u then (Inl InactiveUser, s)
                  else
                    (let u1 = u\<lparr>password := Scrypt password'\<rparr>;
                         s1 = save s u1;
                         s2 = cleanupAfterReset s1 (id u1) normalizedEmail ip;
                         s3 = sendSuccessEmail s2 u1 ip
                     in (Inr True, s3))))"


section \<open>UserService and AuthService\<close>

definition UserService_isActive :: "user option \<Rightarrow> error + bool" where
  "UserService_isActive user' =
     (case user' of
        None \<Rightarrow> Inl UserNotFound
      | Some u \<Rightarrow> Inr (isActive u \<and> \<not> (isDeleted u = Some True)))"

definition revokeAllAccessTokens :: "state \<Rightarrow> user \<Rightarrow> state" where
  "revokeAllAccessTokens s u =
     s\<lparr>accessTokens := filter (\<lambda>t. tokenableId t \<noteq> id u) (accessTokens s)\<rparr>"

definition createAccessToken :: "state \<Rightarrow> user \<Rightarrow> accessToken \<times> state" where
  "createAccessToken s u =
     (let s1 = revokeAllAccessTokens s u;
          t = \<lparr>tokenableId = id u, tokenName = ''access_token'', expiresIn = 86400\<rparr>
      in (t, s1\<lparr>accessTokens := accessTokens s1 @ [t]\<rparr>))"

definition updateLoginMetadata :: "state \<Rightarrow> nat \<Rightarrow> user \<Rightarrow> string \<Rightarrow> user \<times> state" where
  "updateLoginMetadata s now u ip =
     (let u1 = u\<lparr>lastLoginAt := Some now, lastIp := Some ip\<rparr>
      in (u1, save s u1))"

definition cacheUser :: "state \<Rightarrow> nat \<Rightarrow> user \<Rightarrow> state" where
  "cacheUser s now u = CacheService_set s now (userKey (id u)) (VUser u) (Hours 1)"

record LoginResult =
  loginToken :: accessToken
  loginUser :: user

text \<open>
  \<open>AuthService.login\<close> takes \<open>{email, password, ip?}\<close>.  The identifier handed to
  \<open>LoginProtectionService\<close> is \<open>email.trim().toLowerCase()\<close>; the queries use
  \<open>email\<close> as given.
\<close>

definition login ::
  "state \<Rightarrow> nat \<Rightarrow> string \<Rightarrow> string \<Rightarrow> string option \<Rightarrow> (error + LoginResult) \<times> state" where
  "login s now email' password' ip' =
     (let ip = ipOrUnknown ip'
      in if email' = [] \<or> password' = [] then (Inl InvalidCredentials, s)
         else
           (let (loginCheck, s1) = checkLoginAttempt s now (toLowerCase (trim email')) ip
            in if \<not> allowed loginCheck
               then (if isBlocked loginCheck then (Inl AccountBlocked, s1)
                     else (Inl (RateLimited (attemptsRemaining loginCheck)), s1))
               else
                 (let user' = first (where_email_orWhere_username s1 email');
                      failed = (Inl InvalidCredentials,
                                recordLoginAttempt s1 now (toLowerCase (trim email')) ip False
                                  None None)
                  in case user' of
                       None \<Rightarrow> failed
                     | Some u \<Rightarrow>
                         (case UserService_isActive (Some u) of
                            Inl e \<Rightarrow> (Inl e, s1)
                          | Inr active \<Rightarrow>
                              if \<not> active then failed
                              else
                                (case verifyCredentials s1 email' password' of
                                   Inl e \<Rightarrow> (Inl e, s1)
                                 | Inr None \<Rightarrow>
                                     (Inl InvalidCredentials,
                                      recordLoginAttempt s1 now (toLowerCase (trim email')) ip
                                        False (Some (name u)) (email u))
                                 | Inr (Some authUser) \<Rightarrow>
                                     (let s2 = recordLoginAttempt s1 now
                                                 (toLowerCase (trim email')) ip True None None;
                                          (t, s3) = createAccessToken s2 authUser;
                                          (authUser1, s4) = updateLoginMetadata s3 now authUser ip;
                                          s5 = cacheUser s4 now authUser1
                                      in (Inr \<lparr>loginToken = t, loginUser = authUser1\<rparr>, s5)))))))"

section \<open>Concrete scenarios\<close>

text \<open>
  The system before anything has happened; the sixteen random bytes 00 01 .. 0f; an
  active user; a rate-limiter configuration.
\<close>

definition initialState :: state where
  "initialState = \<lparr>cache = Map.empty, users = [], accessTokens = [], journal = []\<rparr>"

definition sampleEntropy :: "128 word" where
  "sampleEntropy = 5233100606242806050955395731361295"

definition bob :: user where
  "bob = \<lparr>id = 7, email = Some ''bob@x.com'', name = ''Bob'', username = ''bobby7'',
          isActive = True, isDeleted = Some False, password = Scrypt ''old-password'',
          emailVerifiedAt = None, lastLoginAt = None, lastIp = None\<rparr>"

definition bobOnly :: state where
  "bobOnly = initialState\<lparr>users := [bob]\<rparr>"

definition sampleConfig :: RateLimitConfig where
  "sampleConfig = \<lparr>maxAttempts = 5, windowMs = 900000, blockTimeMs = 1800000\<rparr>"

text \<open>Bob with a pending verification token, and with a pending reset token.\<close>

definition pendingVerify :: state where
  "pendingVerify =
     storeTokenHash bobOnly 1000 (getVerifyKey ''bob@x.com'')
       (hash (generateSecureToken sampleEntropy)) VERIFY_TTL"

definition pendingReset :: state where
  "pendingReset =
     storeTokenHash bobOnly 1000 (getResetKey ''bob@x.com'')
       (hash (generateSecureToken sampleEntropy)) RESET_TTL"

text \<open>Bob deactivated while his reset token is pending.\<close>

definition deactivated :: state where
  "deactivated = save pendingReset (bob\<lparr>isActive := False\<rparr>)"

text \<open>A stored digest that is not the digest of \<open>abc\<close>.\<close>

definition otherDigest :: state where
  "otherDigest =
     storeTokenHash bobOnly 1000 (getVerifyKey ''bob@x.com'')
       ''d65df89f702eec58ca3c7bf2001c9ffc7cd80553ae01d42a799ba26756142d96'' VERIFY_TTL"

text \<open>Bob's requests throttled: the limiter holds an unexpired block for him.\<close>

definition throttledVerify :: state where
  "throttledVerify =
     CacheService_set bobOnly 1000 (blockedKey ''verify:bob@x.com'' ''203.0.113.9'')
       (VNumber 1801000) (Millis 1800000)"

definition throttledReset :: state where
  "throttledReset =
     CacheService_set bobOnly 1000 (blockedKey ''reset:bob@x.com'' ''203.0.113.9'')
       (VNumber 1801000) (Millis 1800000)"

text \<open>
  The account \<open>alice\<close> blocked at 1000, then with one attempt on the limiter's
  counter; five failed logins for her, one a second.
\<close>

definition blockedAlice :: state where
  "blockedAlice = blockAccount initialState 1000 ''alice''"

definition blockedAliceOneAttempt :: state where
  "blockedAliceOneAttempt =
     RateLimiter_recordAttempt blockedAlice 1500 (''login:'' @ ''alice'') ''198.51.100.7''
       RATE_LIMIT_CONFIG"

definition aliceFailed1 :: state where
  "aliceFailed1 = recordLoginAttempt initialState 1000 ''alice'' ''198.51.100.7'' False None None"

definition aliceFailed2 :: state where
  "aliceFailed2 = recordLoginAttempt aliceFailed1 2000 ''alice'' ''198.51.100.7'' False None None"

definition aliceFailed3 :: state where
  "aliceFailed3 = recordLoginAttempt aliceFailed2 3000 ''alice'' ''198.51.100.7'' False None None"

definition aliceFailed4 :: state where
  "aliceFailed4 = recordLoginAttempt aliceFailed3 4000 ''alice'' ''198.51.100.7'' False None None"

definition aliceFailed5 :: state where
  "aliceFailed5 = recordLoginAttempt aliceFailed4 5000 ''alice'' ''198.51.100.7'' False None None"

text \<open>Failed uses of an API key from one address: one at 1000, five up to 5000.\<close>

definition keyFailed1 :: "RateLimitData store" where
  "keyFailed1 = incrementRateLimit Map.empty 1000 ''203.0.113.9'' ''k''"

definition keyFailed5 :: "RateLimitData store" where
  "keyFailed5 =
     incrementRateLimit
       (incrementRateLimit
          (incrementRateLimit
             (incrementRateLimit keyFailed1 2000 ''203.0.113.9'' ''k'')
             3000 ''203.0.113.9'' ''k'')
          4000 ''203.0.113.9'' ''k'')
       5000 ''203.0.113.9'' ''k''"

section \<open>Properties of the digests and of the token service\<close>

lemma length_sha256: "length (sha256 m) = 32"
  by (simp add: sha256_def be32_def Let_def)

lemma length_toString_hex: "length (toString_hex bs) = 2 * length bs"
  by (induction bs) (simp_all add: toString_hex_def)

lemma length_sha256_hex: "length (sha256_hex s) = 64"
  by (simp add: sha256_hex_def sha256_digest_def length_toString_hex length_sha256)

lemma sha256_hex_nonempty: "sha256_hex s \<noteq> []"
  using length_sha256_hex [of s] by auto

text \<open>The test vector of FIPS 180-4 for the message \<open>abc\<close>.\<close>

lemma sha256_hex_abc:
  "sha256_hex ''abc'' = ''ba7816bf8f01cfea414140de5dae2223b00361a396177a9cb410ff61f20015ad''"
  by code_simp

lemma inj_Buffer_from: "Buffer_from a = Buffer_from b \<Longrightarrow> a = b"
proof -
  have "inj (\<lambda>c::char. (of_nat (of_char c) :: byte))"
  proof (rule injI)
    fix x y :: char
    assume "(of_nat (of_char x) :: byte) = of_nat (of_char y)"
    then have "unat (of_nat (of_char x) :: byte) = unat (of_nat (of_char y) :: byte)" by simp
    moreover have "(of_char x :: nat) < 256" "(of_char y :: nat) < 256" by simp_all
    ultimately have "(of_char x :: nat) = of_char y"
      by (simp add: unat_of_nat)
    then show "x = y" by simp
  qed
  then show "Buffer_from a = Buffer_from b \<Longrightarrow> a = b"
    unfolding Buffer_from_def by (simp add: inj_map_eq_map)
qed

lemma normalize_bob [simp]: "toLowerCase (trim ''bob@x.com'') = ''bob@x.com''"
  by (simp add: toLowerCase_def trim_def isSpace_def)

lemma CacheService_get_absent: "cache s k = None \<Longrightarrow> CacheService_get s now k = None"
  by (simp add: CacheService_get_def cache_get_def)

lemma validateToken_stored:
  assumes "CacheService_get s now k = Some (VString (sha256_hex t))"
  shows "validateToken s now i t k = Inr True"
  using assms by (simp add: validateToken_def sha256_hex_nonempty timingSafeEqual_def Let_def)

lemma validateToken_true_iff:
  "validateToken s now i t k = Inr True
     \<longleftrightarrow> CacheService_get s now k = Some (VString (sha256_hex t))"
  by (auto simp: validateToken_def Let_def timingSafeEqual_def sha256_hex_nonempty
      sha256_hex_nonempty [THEN not_sym] dest: inj_Buffer_from
      split: option.splits cval.splits sum.splits if_splits)

lemma validateToken_absent:
  "CacheService_get s now k = None \<Longrightarrow> validateToken s now i t k = Inl InvalidOrExpiredToken"
  by (simp add: validateToken_def)

lemma validateToken_never_false: "validateToken s now i t k \<noteq> Inr False"
  by (auto simp: validateToken_def Let_def split: option.splits cval.splits sum.splits)

lemma validateToken_mismatch:
  assumes "CacheService_get s now k = Some (VString stored)" "length stored = 64"
    "stored \<noteq> sha256_hex t"
  shows "validateToken s now i t k = Inl InvalidOrExpiredToken"
  using assms
  by (auto simp: validateToken_def Let_def timingSafeEqual_def Buffer_from_def length_sha256_hex
      dest: inj_Buffer_from [unfolded Buffer_from_def])

text \<open>
  C10.  \<open>AppKeyService.safeCompare\<close> is total and fails closed: on every pair of strings
  it returns a boolean and raises nothing (an error inside the \<open>try\<close> block gives
  \<open>false\<close>), and the boolean is \<open>true\<close> exactly when the SHA-256 digests of the two
  strings are equal byte for byte.
\<close>

theorem safeCompare_total_digest_equality:
  "safeCompare expected provided = Inr (sha256_digest expected = sha256_digest provided)"
  by (auto simp: safeCompare_def try_catch_def timingSafeEqual_def Let_def)

text \<open>
  C1.  A token pair produced by \<open>generateSecureToken\<close> whose digest was stored with
  \<open>storeTokenHash\<close> under a key at \<open>t0\<close> validates: in every later state \<open>s2\<close> whose
  entry under that key is still the stored one (no newer request has overwritten it and
  nothing has deleted it), at every instant \<open>t\<close> before the TTL runs out,
  \<open>validateToken\<close> with the same key and the generated plaintext returns \<open>true\<close>.
\<close>

theorem generated_token_validates:
  assumes "cache s2 k = cache (storeTokenHash s0 t0 k (hash (generateSecureToken entropy)) d) k"
    and "t < t0 + ms_of d"
  shows "validateToken s2 t i (token (generateSecureToken entropy)) k = Inr True"
proof -
  have "CacheService_get s2 t k
          = Some (VString (sha256_hex (token (generateSecureToken entropy))))"
    using assms
    by (simp add: CacheService_get_def cache_get_def storeTokenHash_def CacheService_set_def
        cache_set_def generateSecureToken_def Let_def)
  then show ?thesis by (rule validateToken_stored)
qed

theorem generated_token_validates_witness:
  "(2000::nat) < 1000 + ms_of VERIFY_TTL
   \<and> validateToken pendingVerify 2000 ''bob@x.com'' (token (generateSecureToken sampleEntropy))
        (getVerifyKey ''bob@x.com'') = Inr True"
  using generated_token_validates
    [of pendingVerify "getVerifyKey ''bob@x.com''" bobOnly 1000 sampleEntropy VERIFY_TTL 2000
        "''bob@x.com''"]
  by (simp add: pendingVerify_def VERIFY_TTL_def)

text \<open>
  C3, as the code has it.  Token verification fails closed by raising, and never returns
  \<open>false\<close>: \<open>validateToken\<close> returns \<open>true\<close> exactly when the stored digest is the
  digest of the candidate; when the stored digest is absent (expired or never issued),
  and when a stored digest of 64 characters differs from the digest of the candidate, it
  raises the exception \<open>InvalidOrExpiredToken\<close> (status 400).
\<close>

theorem validateToken_fails_closed_by_raising:
  "validateToken s now i t k \<noteq> Inr False
   \<and> (validateToken s now i t k = Inr True
        \<longleftrightarrow> CacheService_get s now k = Some (VString (sha256_hex t)))
   \<and> (CacheService_get s now k = None
        \<longrightarrow> validateToken s now i t k = Inl InvalidOrExpiredToken)
   \<and> (\<forall>stored. CacheService_get s now k = Some (VString stored) \<and> length stored = 64
          \<and> stored \<noteq> sha256_hex t
        \<longrightarrow> validateToken s now i t k = Inl InvalidOrExpiredToken)"
proof (intro conjI allI impI)
  show "validateToken s now i t k \<noteq> Inr False" by (rule validateToken_never_false)
  show "validateToken s now i t k = Inr True
        \<longleftrightarrow> CacheService_get s now k = Some (VString (sha256_hex t))"
    by (rule validateToken_true_iff)
  show "validateToken s now i t k = Inl InvalidOrExpiredToken"
    if "CacheService_get s now k = None"
    using that by (rule validateToken_absent)
  show "validateToken s now i t k = Inl InvalidOrExpiredToken"
    if "CacheService_get s now k = Some (VString stored) \<and> length stored = 64
          \<and> stored \<noteq> sha256_hex t" for stored
    using that validateToken_mismatch by blast
qed

theorem validateToken_fails_closed_by_raising_witness:
  "CacheService_get bobOnly 2000 (getVerifyKey ''bob@x.com'') = None
   \<and> validateToken bobOnly 2000 ''bob@x.com'' ''abc'' (getVerifyKey ''bob@x.com'')
       = Inl InvalidOrExpiredToken
   \<and> CacheService_get otherDigest 2000 (getVerifyKey ''bob@x.com'')
       = Some (VString ''d65df89f702eec58ca3c7bf2001c9ffc7cd80553ae01d42a799ba26756142d96'')
   \<and> validateToken otherDigest 2000 ''bob@x.com'' ''abc'' (getVerifyKey ''bob@x.com'')
       = Inl InvalidOrExpiredToken"
proof -
  have absent: "CacheService_get bobOnly 2000 (getVerifyKey ''bob@x.com'') = None"
    by (simp add: CacheService_get_def cache_get_def bobOnly_def initialState_def)
  have present: "CacheService_get otherDigest 2000 (getVerifyKey ''bob@x.com'')
       = Some (VString ''d65df89f702eec58ca3c7bf2001c9ffc7cd80553ae01d42a799ba26756142d96'')"
    by (simp add: CacheService_get_def cache_get_def otherDigest_def storeTokenHash_def
        CacheService_set_def cache_set_def VERIFY_TTL_def)
  have differs: "''d65df89f702eec58ca3c7bf2001c9ffc7cd80553ae01d42a799ba26756142d96''
                   \<noteq> sha256_hex ''abc''"
    by (simp add: sha256_hex_abc)
  show ?thesis
    using validateToken_fails_closed_by_raising
      [of bobOnly 2000 "''bob@x.com''" "''abc''" "getVerifyKey ''bob@x.com''"]
      validateToken_fails_closed_by_raising
      [of otherDigest 2000 "''bob@x.com''" "''abc''" "getVerifyKey ''bob@x.com''"]
      absent present differs
    by simp
qed

text \<open>
  C3 as stated fails: on a malformed candidate \<open>validateToken\<close> does not return
  \<open>false\<close>, it raises.  So it does on the empty string with no digest stored, and on
  \<open>abc\<close> (no 32 hexadecimal digits) with a digest stored.
\<close>

theorem validateToken_raises_on_malformed_input:
  "validateToken initialState 1000 ''user@x.com'' [] (getVerifyKey ''user@x.com'')
     = Inl InvalidOrExpiredToken
   \<and> validateToken initialState 1000 ''user@x.com'' [] (getVerifyKey ''user@x.com'')
       \<noteq> Inr False
   \<and> validateToken otherDigest 2000 ''bob@x.com'' ''abc'' (getVerifyKey ''bob@x.com'')
       = Inl InvalidOrExpiredToken
   \<and> validateToken otherDigest 2000 ''bob@x.com'' ''abc'' (getVerifyKey ''bob@x.com'')
       \<noteq> Inr False"
proof -
  have "CacheService_get initialState 1000 (getVerifyKey ''user@x.com'') = None"
    by (simp add: CacheService_get_def cache_get_def initialState_def)
  then have absent:
    "validateToken initialState 1000 ''user@x.com'' [] (getVerifyKey ''user@x.com'')
       = Inl InvalidOrExpiredToken"
    by (rule validateToken_absent)
  have "CacheService_get otherDigest 2000 (getVerifyKey ''bob@x.com'')
       = Some (VString ''d65df89f702eec58ca3c7bf2001c9ffc7cd80553ae01d42a799ba26756142d96'')"
    by (simp add: CacheService_get_def cache_get_def otherDigest_def storeTokenHash_def
        CacheService_set_def cache_set_def VERIFY_TTL_def)
  then have mismatch:
    "validateToken otherDigest 2000 ''bob@x.com'' ''abc'' (getVerifyKey ''bob@x.com'')
       = Inl InvalidOrExpiredToken"
    by (rule validateToken_mismatch) (simp_all add: sha256_hex_abc)
  show ?thesis
    by (simp add: absent mismatch)
qed

section \<open>Properties of the cache keys and of the rate limiter\<close>

lemma rl_keys_distinct [simp]:
  "attemptsKey i p \<noteq> windowKey i' p'" "attemptsKey i p \<noteq> blockedKey i' p'"
  "windowKey i p \<noteq> attemptsKey i' p'" "windowKey i p \<noteq> blockedKey i' p'"
  "blockedKey i p \<noteq> attemptsKey i' p'" "blockedKey i p \<noteq> windowKey i' p'"
  by (simp_all add: attemptsKey_def windowKey_def blockedKey_def)

lemma account_key_distinct [simp]:
  "getAccountBlockKey j \<noteq> attemptsKey i p" "getAccountBlockKey j \<noteq> windowKey i p"
  "getAccountBlockKey j \<noteq> blockedKey i p"
  "attemptsKey i p \<noteq> getAccountBlockKey j" "windowKey i p \<noteq> getAccountBlockKey j"
  "blockedKey i p \<noteq> getAccountBlockKey j"
  by (simp_all add: attemptsKey_def windowKey_def blockedKey_def getAccountBlockKey_def)

lemma token_key_distinct [simp]:
  "getVerifyKey e \<noteq> attemptsKey i p" "getVerifyKey e \<noteq> windowKey i p"
  "getVerifyKey e \<noteq> blockedKey i p"
  "getResetKey e \<noteq> attemptsKey i p" "getResetKey e \<noteq> windowKey i p"
  "getResetKey e \<noteq> blockedKey i p"
  by (simp_all add: attemptsKey_def windowKey_def blockedKey_def getVerifyKey_def getResetKey_def)

lemma get_number_cong: "cache s' k = cache s k \<Longrightarrow> get_number s' now k = get_number s now k"
  by (simp add: get_number_def CacheService_get_def cache_get_def)

lemma get_number_entry:
  "cache s k = Some \<lparr>val = VNumber n, expiresAt = e\<rparr>
     \<Longrightarrow> get_number s now k = (if now < e then Some n else None)"
  by (simp add: get_number_def CacheService_get_def cache_get_def)

lemma get_number_journal [simp]:
  "get_number (s\<lparr>journal := j\<rparr>) now k = get_number s now k"
  by (simp add: get_number_def CacheService_get_def)

lemma windowExpired_journal [simp]:
  "windowExpired (s\<lparr>journal := j\<rparr>) now i p cfg = windowExpired s now i p cfg"
  by (simp add: windowExpired_def)

lemma cache_CacheService_set:
  "cache (CacheService_set s now k v ttl) k'
     = (if k' = k then Some \<lparr>val = v, expiresAt = now + ms_of ttl\<rparr> else cache s k')"
  by (simp add: CacheService_set_def cache_set_def)

lemma cache_CacheService_set_journal [simp]:
  "cache (CacheService_set (s\<lparr>journal := j\<rparr>) now k v ttl) = cache (CacheService_set s now k v ttl)"
  by (simp add: CacheService_set_def)

lemma cache_EmailService_send [simp]: "cache (EmailService_send s m) = cache s"
  by (simp add: EmailService_send_def)

lemma cache_deleteRecord:
  "cache (deleteRecord s i p) k
     = (if k = attemptsKey i p \<or> k = windowKey i p \<or> k = blockedKey i p then None else cache s k)"
  by (simp add: deleteRecord_def CacheService_delete_def cache_delete_def)

lemma cache_RateLimiter_check_other:
  assumes "k \<noteq> attemptsKey i p" "k \<noteq> windowKey i p" "k \<noteq> blockedKey i p"
  shows "cache (snd (RateLimiter_check s now i p cfg)) k = cache s k"
  using assms
  by (simp add: RateLimiter_check_def Let_def cache_deleteRecord split: option.splits)

lemma journal_RateLimiter_check:
  "journal (snd (RateLimiter_check s now i p cfg)) = journal s @ [RateLimiter_check_called i p]"
  by (simp add: RateLimiter_check_def Let_def deleteRecord_def CacheService_delete_def
      split: option.splits)

lemma recordAttempt_first:
  assumes "get_number s now (attemptsKey i p) = None" "1 < maxAttempts cfg"
  shows "cache (RateLimiter_recordAttempt s now i p cfg) (attemptsKey i p)
           = Some \<lparr>val = VNumber 1, expiresAt = now + windowMs cfg\<rparr>"
    and "cache (RateLimiter_recordAttempt s now i p cfg) (windowKey i p)
           = Some \<lparr>val = VNumber now, expiresAt = now + windowMs cfg\<rparr>"
  using assms
  by (simp_all add: RateLimiter_recordAttempt_def Let_def cache_CacheService_set)

lemma recordAttempt_next:
  assumes "cache s (attemptsKey i p) = Some \<lparr>val = VNumber n, expiresAt = e\<rparr>"
    and "cache s (windowKey i p) = Some \<lparr>val = VNumber w, expiresAt = e\<rparr>"
    and "now < e" "now \<le> w + windowMs cfg"
  shows "cache (RateLimiter_recordAttempt s now i p cfg) (attemptsKey i p)
           = Some \<lparr>val = VNumber (Suc n),
                   expiresAt = now + (if maxAttempts cfg \<le> Suc n then blockTimeMs cfg
                                      else windowMs cfg)\<rparr>"
    and "cache (RateLimiter_recordAttempt s now i p cfg) (windowKey i p)
           = Some \<lparr>val = VNumber w,
                   expiresAt = now + (if maxAttempts cfg \<le> Suc n then blockTimeMs cfg
                                      else windowMs cfg)\<rparr>"
  using assms
  by (simp_all add: RateLimiter_recordAttempt_def Let_def cache_CacheService_set
      windowExpired_def get_number_entry)

section \<open>Properties of the login protection\<close>

lemma cfg_simps [simp]:
  "maxAttempts RATE_LIMIT_CONFIG = 5" "windowMs RATE_LIMIT_CONFIG = 900000"
  "blockTimeMs RATE_LIMIT_CONFIG = 1800000"
  by (simp_all add: RATE_LIMIT_CONFIG_def MAX_ATTEMPTS_def WINDOW_MS_def BLOCK_TIME_MS_def)

lemma isAccountBlocked_iff:
  "isAccountBlocked s now identifier
     \<longleftrightarrow> (\<exists>b. get_number s now (getAccountBlockKey identifier) = Some b \<and> now < b)"
  by (simp add: isAccountBlocked_def split: option.splits)

lemma checkLoginAttempt_blocked:
  assumes "get_number s now (getAccountBlockKey identifier) = Some b" "now < b"
  shows "checkLoginAttempt s now identifier ip
           = (\<lparr>allowed = False, attemptsRemaining = 0, blockedUntil = Some b, isBlocked = True\<rparr>,
              snd (RateLimiter_check s now (''login:'' @ identifier) ip RATE_LIMIT_CONFIG))"
proof -
  let ?s1 = "snd (RateLimiter_check s now (''login:'' @ identifier) ip RATE_LIMIT_CONFIG)"
  have "cache ?s1 (getAccountBlockKey identifier) = cache s (getAccountBlockKey identifier)"
    by (rule cache_RateLimiter_check_other) simp_all
  from get_number_cong [OF this] assms(1)
  have g: "get_number ?s1 now (getAccountBlockKey identifier) = Some b"
    by simp
  show ?thesis
    using g assms(2)
    by (simp add: checkLoginAttempt_def isAccountBlocked_def case_prod_unfold Let_def)
qed

lemma getFailedAttempts_eq:
  "getFailedAttempts s now identifier ip
     = (case get_number s now (attemptsKey (''login:'' @ identifier) ip) of
          None \<Rightarrow> 0 | Some n \<Rightarrow> n)"
  by (simp add: getFailedAttempts_def attemptsKey_def)

lemma recordLoginAttempt_reached:
  assumes "cache (RateLimiter_recordAttempt s now (''login:'' @ identifier) ip RATE_LIMIT_CONFIG)
             (attemptsKey (''login:'' @ identifier) ip) = Some \<lparr>val = VNumber n, expiresAt = e\<rparr>"
    and "MAX_ATTEMPTS \<le> n" "now < e"
  shows "cache (recordLoginAttempt s now identifier ip False un ue) (getAccountBlockKey identifier)
           = Some \<lparr>val = VNumber (now + EXTENDED_BLOCK_TIME_MS),
                   expiresAt = now + EXTENDED_BLOCK_TIME_MS\<rparr>"
  using assms
  by (simp add: recordLoginAttempt_def Let_def getFailedAttempts_eq get_number_entry
      blockAccount_def cache_CacheService_set sendAccountBlockedEmail_def
      EXTENDED_BLOCK_TIME_MS_def split: option.splits)

lemma blockedAlice_until:
  "get_number blockedAlice 2000 (getAccountBlockKey ''alice'') = Some 7201000"
  by (simp add: blockedAlice_def blockAccount_def initialState_def get_number_def
      CacheService_get_def cache_get_def CacheService_set_def cache_set_def
      EXTENDED_BLOCK_TIME_MS_def Let_def)

lemma journal_blockedAlice: "journal blockedAlice = []"
  by (simp add: blockedAlice_def blockAccount_def initialState_def CacheService_set_def Let_def)

lemma cache_RateLimiter_recordAttempt_other:
  assumes "k \<noteq> attemptsKey i p" "k \<noteq> windowKey i p" "k \<noteq> blockedKey i p"
  shows "cache (RateLimiter_recordAttempt s now i p cfg) k = cache s k"
  using assms
  by (simp add: RateLimiter_recordAttempt_def Let_def cache_CacheService_set)

lemma blockedAliceOneAttempt_attempts:
  "cache blockedAliceOneAttempt (attemptsKey (''login:'' @ ''alice'') ''198.51.100.7'')
     = Some \<lparr>val = VNumber 1, expiresAt = 901500\<rparr>"
proof -
  have "get_number blockedAlice 1500 (attemptsKey (''login:'' @ ''alice'') ''198.51.100.7'') = None"
    by (simp add: blockedAlice_def blockAccount_def initialState_def get_number_def
        CacheService_get_def cache_get_def CacheService_set_def cache_set_def Let_def)
  from recordAttempt_first(1) [OF this, of RATE_LIMIT_CONFIG] show ?thesis
    by (simp add: blockedAliceOneAttempt_def)
qed

lemma blockedAliceOneAttempt_blocked: "isAccountBlocked blockedAliceOneAttempt 2000 ''alice''"
proof -
  have "cache blockedAliceOneAttempt (getAccountBlockKey ''alice'')
          = cache blockedAlice (getAccountBlockKey ''alice'')"
    unfolding blockedAliceOneAttempt_def
    by (rule cache_RateLimiter_recordAttempt_other) simp_all
  from get_number_cong [OF this] blockedAlice_until show ?thesis
    by (simp add: isAccountBlocked_def)
qed

lemma recordAttempt_any:
  "\<exists>n w. 1 \<le> n
     \<and> cache (RateLimiter_recordAttempt s now i p cfg) (attemptsKey i p)
         = Some \<lparr>val = VNumber n,
                 expiresAt = now + (if maxAttempts cfg \<le> n then blockTimeMs cfg else windowMs cfg)\<rparr>
     \<and> cache (RateLimiter_recordAttempt s now i p cfg) (windowKey i p)
         = Some \<lparr>val = VNumber w,
                 expiresAt = now + (if maxAttempts cfg \<le> n then blockTimeMs cfg else windowMs cfg)\<rparr>
     \<and> (w = now
        \<or> (\<exists>a. get_number s now (attemptsKey i p) = Some a
               \<and> get_number s now (windowKey i p) = Some w \<and> now \<le> w + windowMs cfg))"
proof (cases "windowExpired s now i p cfg")
  case True
  then show ?thesis
    by (intro exI [of _ 1] exI [of _ now])
       (simp add: RateLimiter_recordAttempt_def Let_def cache_CacheService_set)
next
  case False
  show ?thesis
  proof (cases "get_number s now (attemptsKey i p)")
    case None
    with False show ?thesis
      by (intro exI [of _ 1] exI [of _ now])
         (simp add: RateLimiter_recordAttempt_def Let_def cache_CacheService_set)
  next
    case (Some a)
    show ?thesis
    proof (cases "get_number s now (windowKey i p)")
      case None
      with False Some show ?thesis
        by (intro exI [of _ 1] exI [of _ now])
           (simp add: RateLimiter_recordAttempt_def Let_def cache_CacheService_set)
    next
      case w: (Some w)
      from False w have "now \<le> w + windowMs cfg"
        by (simp add: windowExpired_def)
      with False Some w show ?thesis
        by (intro exI [of _ "Suc a"] exI [of _ w])
           (simp add: RateLimiter_recordAttempt_def Let_def cache_CacheService_set)
    qed
  qed
qed

lemma cache_recordLoginAttempt_limiter:
  assumes "k \<noteq> getAccountBlockKey identifier"
  shows "cache (recordLoginAttempt s now identifier ip False un ue) k
           = cache (RateLimiter_recordAttempt s now (''login:'' @ identifier) ip RATE_LIMIT_CONFIG) k"
  using assms
  by (simp add: recordLoginAttempt_def Let_def blockAccount_def cache_CacheService_set
      sendAccountBlockedEmail_def split: option.splits)

lemma recordLoginAttempt_step:
  assumes "cache s (attemptsKey (''login:'' @ identifier) ip)
             = Some \<lparr>val = VNumber n, expiresAt = e\<rparr>"
    and "cache s (windowKey (''login:'' @ identifier) ip)
             = Some \<lparr>val = VNumber w, expiresAt = e\<rparr>"
    and "now < e" "now \<le> w + WINDOW_MS"
  shows "cache (recordLoginAttempt s now identifier ip False un ue)
           (attemptsKey (''login:'' @ identifier) ip)
           = Some \<lparr>val = VNumber (Suc n),
                   expiresAt = now + (if 5 \<le> Suc n then 1800000 else 900000)\<rparr>"
    and "cache (recordLoginAttempt s now identifier ip False un ue)
           (windowKey (''login:'' @ identifier) ip)
           = Some \<lparr>val = VNumber w,
                   expiresAt = now + (if 5 \<le> Suc n then 1800000 else 900000)\<rparr>"
  using recordAttempt_next [OF assms(1,2,3), of RATE_LIMIT_CONFIG] assms(4)
  by (simp_all add: cache_recordLoginAttempt_limiter WINDOW_MS_def)

text \<open>
  C6.  Five failed \<open>recordLoginAttempt\<close> calls for the same identifier and IP within
  the window set the account block.  The calls are made at \<open>tA \<le> .. \<le> tE\<close>, the last
  one less than the window (15 minutes) after the first and, if the limiter already holds
  a live window for them at the first call, still inside that window.  Then the
  account-block entry holds \<open>blockedUntil = tE + EXTENDED_BLOCK_TIME_MS\<close>, two hours,
  four times the 30 minutes of the short block, and from then on, in every state that
  still has this entry and at every instant before \<open>blockedUntil\<close>,
  \<open>checkLoginAttempt\<close> for that identifier returns \<open>isBlocked = true\<close> with that
  \<open>blockedUntil\<close>, whatever the IP.
\<close>

theorem five_failed_logins_block_account:
  assumes order: "tA \<le> tB" "tB \<le> tC" "tC \<le> tD" "tD \<le> tE" "tE < tA + WINDOW_MS"
    and window: "\<And>a w. get_number s tA (attemptsKey (''login:'' @ identifier) ip) = Some a
                   \<Longrightarrow> get_number s tA (windowKey (''login:'' @ identifier) ip) = Some w
                   \<Longrightarrow> tA \<le> w + WINDOW_MS \<Longrightarrow> tE \<le> w + WINDOW_MS"
    and sA: "sA = recordLoginAttempt s tA identifier ip False unA ueA"
    and sB: "sB = recordLoginAttempt sA tB identifier ip False unB ueB"
    and sC: "sC = recordLoginAttempt sB tC identifier ip False unC ueC"
    and sD: "sD = recordLoginAttempt sC tD identifier ip False unD ueD"
    and sE: "sE = recordLoginAttempt sD tE identifier ip False unE ueE"
  shows "cache sE (getAccountBlockKey identifier)
           = Some \<lparr>val = VNumber (tE + EXTENDED_BLOCK_TIME_MS),
                   expiresAt = tE + EXTENDED_BLOCK_TIME_MS\<rparr>
       \<and> EXTENDED_BLOCK_TIME_MS = 2 * 60 * 60 * 1000
       \<and> EXTENDED_BLOCK_TIME_MS = 4 * BLOCK_TIME_MS
       \<and> (\<forall>s' t ip'. cache s' (getAccountBlockKey identifier)
                          = cache sE (getAccountBlockKey identifier)
             \<and> t < tE + EXTENDED_BLOCK_TIME_MS
           \<longrightarrow> fst (checkLoginAttempt s' t identifier ip')
                 = \<lparr>allowed = False, attemptsRemaining = 0,
                    blockedUntil = Some (tE + EXTENDED_BLOCK_TIME_MS), isBlocked = True\<rparr>)"
proof -
  let ?I = "''login:'' @ identifier"
  let ?A = "attemptsKey ?I ip" and ?W = "windowKey ?I ip"
  let ?R = "\<lambda>s t. RateLimiter_recordAttempt s t ?I ip RATE_LIMIT_CONFIG"
  let ?e = "\<lambda>t n. t + (if (5::nat) \<le> n then 1800000 else (900000::nat))"
  from recordAttempt_any [where cfg = RATE_LIMIT_CONFIG and s = s and now = tA and i = ?I and p = ip]
  obtain n w where n: "1 \<le> n"
    and a1: "cache (?R s tA) ?A = Some \<lparr>val = VNumber n, expiresAt = ?e tA n\<rparr>"
    and w1: "cache (?R s tA) ?W = Some \<lparr>val = VNumber w, expiresAt = ?e tA n\<rparr>"
    and w: "w = tA \<or> (\<exists>a. get_number s tA ?A = Some a \<and> get_number s tA ?W = Some w
                          \<and> tA \<le> w + 900000)"
    by auto
  from w order window have inw: "tE \<le> w + WINDOW_MS"
    by (auto simp: WINDOW_MS_def)
  with order have win: "tB \<le> w + WINDOW_MS" "tC \<le> w + WINDOW_MS" "tD \<le> w + WINDOW_MS"
    by simp_all
  from order have live: "tB < ?e tA k" "tC < ?e tB k" "tD < ?e tC k" "tE < ?e tD k" for k
    by (simp_all add: WINDOW_MS_def)
  have cA: "cache sA ?A = Some \<lparr>val = VNumber n, expiresAt = ?e tA n\<rparr>"
       "cache sA ?W = Some \<lparr>val = VNumber w, expiresAt = ?e tA n\<rparr>"
    unfolding sA using a1 w1 by (simp_all add: cache_recordLoginAttempt_limiter)
  have cB: "cache sB ?A = Some \<lparr>val = VNumber (Suc n), expiresAt = ?e tB (Suc n)\<rparr>"
       "cache sB ?W = Some \<lparr>val = VNumber w, expiresAt = ?e tB (Suc n)\<rparr>"
    unfolding sB using recordLoginAttempt_step [OF cA live(1) win(1)] by simp_all
  have cC: "cache sC ?A = Some \<lparr>val = VNumber (Suc (Suc n)), expiresAt = ?e tC (Suc (Suc n))\<rparr>"
       "cache sC ?W = Some \<lparr>val = VNumber w, expiresAt = ?e tC (Suc (Suc n))\<rparr>"
    unfolding sC using recordLoginAttempt_step [OF cB live(2) win(2)] by simp_all
  have cD: "cache sD ?A
              = Some \<lparr>val = VNumber (Suc (Suc (Suc n))), expiresAt = ?e tD (Suc (Suc (Suc n)))\<rparr>"
       "cache sD ?W
              = Some \<lparr>val = VNumber w, expiresAt = ?e tD (Suc (Suc (Suc n)))\<rparr>"
    unfolding sD using recordLoginAttempt_step [OF cC live(3) win(3)] by simp_all
  have r5: "cache (?R sD tE) ?A
              = Some \<lparr>val = VNumber (Suc (Suc (Suc (Suc n)))), expiresAt = tE + 1800000\<rparr>"
    using recordAttempt_next(1) [OF cD live(4), of RATE_LIMIT_CONFIG] inw n
    by (simp add: WINDOW_MS_def)
  have blocked: "cache sE (getAccountBlockKey identifier)
           = Some \<lparr>val = VNumber (tE + EXTENDED_BLOCK_TIME_MS),
                   expiresAt = tE + EXTENDED_BLOCK_TIME_MS\<rparr>"
    unfolding sE using n
    by (intro recordLoginAttempt_reached [OF r5]) (simp_all add: MAX_ATTEMPTS_def)
  have check: "fst (checkLoginAttempt s' t identifier ip')
                 = \<lparr>allowed = False, attemptsRemaining = 0,
                    blockedUntil = Some (tE + EXTENDED_BLOCK_TIME_MS), isBlocked = True\<rparr>"
    if "cache s' (getAccountBlockKey identifier) = cache sE (getAccountBlockKey identifier)"
      and "t < tE + EXTENDED_BLOCK_TIME_MS" for s' t ip'
  proof -
    from that blocked
    have "get_number s' t (getAccountBlockKey identifier) = Some (tE + EXTENDED_BLOCK_TIME_MS)"
      by (simp add: get_number_entry)
    from checkLoginAttempt_blocked [OF this that(2)] show ?thesis by simp
  qed
  show ?thesis
    using blocked check
    by (simp add: EXTENDED_BLOCK_TIME_MS_def BLOCK_TIME_MS_def)
qed

theorem five_failed_logins_block_account_witness:
  "(5000::nat) < 1000 + WINDOW_MS
   \<and> get_number initialState 1000 (attemptsKey (''login:'' @ ''alice'') ''198.51.100.7'') = None
   \<and> cache aliceFailed5 (getAccountBlockKey ''alice'')
       = Some \<lparr>val = VNumber 7205000, expiresAt = 7205000\<rparr>
   \<and> fst (checkLoginAttempt aliceFailed5 6000 ''alice'' ''203.0.113.9'')
       = \<lparr>allowed = False, attemptsRemaining = 0, blockedUntil = Some 7205000, isBlocked = True\<rparr>"
proof -
  have fresh: "get_number initialState 1000 (attemptsKey (''login:'' @ ''alice'') ''198.51.100.7'')
                 = None"
    by (simp add: get_number_def CacheService_get_def cache_get_def initialState_def)
  have window: "(5000::nat) < 1000 + WINDOW_MS"
    by (simp add: WINDOW_MS_def)
  have inside: "5000 \<le> w + WINDOW_MS"
    if "get_number initialState 1000 (attemptsKey (''login:'' @ ''alice'') ''198.51.100.7'')
          = Some a" for a w
    using that fresh by simp
  have ext: "EXTENDED_BLOCK_TIME_MS = 7200000"
    by (simp add: EXTENDED_BLOCK_TIME_MS_def)
  from five_failed_logins_block_account
    [OF _ _ _ _ window inside aliceFailed1_def aliceFailed2_def aliceFailed3_def
       aliceFailed4_def aliceFailed5_def]
  have "cache aliceFailed5 (getAccountBlockKey ''alice'')
           = Some \<lparr>val = VNumber 7205000, expiresAt = 7205000\<rparr>
        \<and> (\<forall>s' t ip'. cache s' (getAccountBlockKey ''alice'')
                           = cache aliceFailed5 (getAccountBlockKey ''alice'')
              \<and> t < 7205000
            \<longrightarrow> fst (checkLoginAttempt s' t ''alice'' ip')
                  = \<lparr>allowed = False, attemptsRemaining = 0, blockedUntil = Some 7205000,
                     isBlocked = True\<rparr>)"
    by (simp add: ext)
  then have "cache aliceFailed5 (getAccountBlockKey ''alice'')
           = Some \<lparr>val = VNumber 7205000, expiresAt = 7205000\<rparr>
        \<and> fst (checkLoginAttempt aliceFailed5 6000 ''alice'' ''203.0.113.9'')
            = \<lparr>allowed = False, attemptsRemaining = 0, blockedUntil = Some 7205000,
               isBlocked = True\<rparr>"
    by simp
  with fresh window show ?thesis by simp
qed

text \<open>
  C7.  \<open>recordLoginAttempt\<close> with \<open>success = true\<close> deletes the rate-limiter state of
  the login scope for that identifier and IP (the attempts counter, the window start and
  the block; a later \<open>RateLimiter.check\<close> finds a fresh state) and leaves every
  account-block entry as it was: whether an account is blocked at any instant is the same
  before and after, so the block ends only with time.  Nothing else in the cache changes
  either, and no user row.
\<close>

theorem successful_login_clears_limiter_keeps_account_block:
  "(let s' = recordLoginAttempt s now identifier ip True userName userEmail
    in cache s' (attemptsKey (''login:'' @ identifier) ip) = None
     \<and> cache s' (windowKey (''login:'' @ identifier) ip) = None
     \<and> cache s' (blockedKey (''login:'' @ identifier) ip) = None
     \<and> (\<forall>t. fst (RateLimiter_check s' t (''login:'' @ identifier) ip RATE_LIMIT_CONFIG)
              = \<lparr>allowed = True, attemptsRemaining = MAX_ATTEMPTS, blockedUntil = None\<rparr>)
     \<and> (\<forall>j. cache s' (getAccountBlockKey j) = cache s (getAccountBlockKey j))
     \<and> (\<forall>t j. isAccountBlocked s' t j = isAccountBlocked s t j)
     \<and> (\<forall>k. k \<noteq> attemptsKey (''login:'' @ identifier) ip
            \<and> k \<noteq> windowKey (''login:'' @ identifier) ip
            \<and> k \<noteq> blockedKey (''login:'' @ identifier) ip
          \<longrightarrow> cache s' k = cache s k)
     \<and> users s' = users s)"
proof -
  let ?s' = "recordLoginAttempt s now identifier ip True userName userEmail"
  have c: "cache ?s' k = (if k = attemptsKey (''login:'' @ identifier) ip
              \<or> k = windowKey (''login:'' @ identifier) ip
              \<or> k = blockedKey (''login:'' @ identifier) ip then None else cache s k)" for k
    by (simp add: recordLoginAttempt_def clearLoginAttempts_def RateLimiter_clearAttempts_def
        cache_deleteRecord)
  have u: "users ?s' = users s"
    by (simp add: recordLoginAttempt_def clearLoginAttempts_def RateLimiter_clearAttempts_def
        deleteRecord_def CacheService_delete_def)
  have r: "fst (RateLimiter_check ?s' t (''login:'' @ identifier) ip RATE_LIMIT_CONFIG)
              = \<lparr>allowed = True, attemptsRemaining = MAX_ATTEMPTS, blockedUntil = None\<rparr>" for t
    by (simp add: RateLimiter_check_def Let_def windowExpired_def get_number_def
        CacheService_get_def cache_get_def c RATE_LIMIT_CONFIG_def MAX_ATTEMPTS_def)
  have a: "cache ?s' (getAccountBlockKey j) = cache s (getAccountBlockKey j)" for j
    by (simp add: c)
  have b: "isAccountBlocked ?s' t j = isAccountBlocked s t j" for t j
    using get_number_cong [OF a] by (simp add: isAccountBlocked_def)
  show ?thesis
    unfolding Let_def using c u r a b by simp
qed

theorem successful_login_clears_limiter_keeps_account_block_witness:
  "cache blockedAliceOneAttempt (attemptsKey (''login:'' @ ''alice'') ''198.51.100.7'')
     = Some \<lparr>val = VNumber 1, expiresAt = 901500\<rparr>
   \<and> isAccountBlocked blockedAliceOneAttempt 2000 ''alice''
   \<and> cache (recordLoginAttempt blockedAliceOneAttempt 2000 ''alice'' ''198.51.100.7'' True
               None None)
        (attemptsKey (''login:'' @ ''alice'') ''198.51.100.7'') = None
   \<and> isAccountBlocked
        (recordLoginAttempt blockedAliceOneAttempt 2000 ''alice'' ''198.51.100.7'' True None None)
        2000 ''alice''"
  using successful_login_clears_limiter_keeps_account_block
    [of blockedAliceOneAttempt 2000 "''alice''" "''198.51.100.7''" None None]
    blockedAliceOneAttempt_attempts blockedAliceOneAttempt_blocked
  by (simp add: Let_def)

text \<open>
  C8, as the code has it.  While an account-block entry for the identifier is active,
  \<open>checkLoginAttempt\<close> returns \<open>allowed = false\<close>, \<open>isBlocked = true\<close> and the
  stored \<open>blockedUntil\<close>; the returned value is fixed by that entry alone, so the
  result of the rate limiter does not influence it.  The rate limiter is consulted all
  the same: \<open>RateLimiter.check\<close> is called first, on every path.
\<close>

theorem blocked_account_decides_check:
  assumes "isAccountBlocked s now identifier"
  shows "\<exists>b. get_number s now (getAccountBlockKey identifier) = Some b
           \<and> fst (checkLoginAttempt s now identifier ip)
               = \<lparr>allowed = False, attemptsRemaining = 0, blockedUntil = Some b, isBlocked = True\<rparr>
           \<and> (\<forall>s' ip'. cache s' (getAccountBlockKey identifier)
                           = cache s (getAccountBlockKey identifier)
                \<longrightarrow> fst (checkLoginAttempt s' now identifier ip')
                      = fst (checkLoginAttempt s now identifier ip))
           \<and> journal (snd (checkLoginAttempt s now identifier ip))
               = journal s @ [RateLimiter_check_called (''login:'' @ identifier) ip]"
proof -
  from assms obtain b where b: "get_number s now (getAccountBlockKey identifier) = Some b" "now < b"
    by (auto simp: isAccountBlocked_iff)
  have 1: "checkLoginAttempt s now identifier ip
           = (\<lparr>allowed = False, attemptsRemaining = 0, blockedUntil = Some b, isBlocked = True\<rparr>,
              snd (RateLimiter_check s now (''login:'' @ identifier) ip RATE_LIMIT_CONFIG))"
    using b by (rule checkLoginAttempt_blocked)
  have 2: "fst (checkLoginAttempt s' now identifier ip') = fst (checkLoginAttempt s now identifier ip)"
    if "cache s' (getAccountBlockKey identifier) = cache s (getAccountBlockKey identifier)"
    for s' ip'
  proof -
    from get_number_cong [OF that] b have "get_number s' now (getAccountBlockKey identifier) = Some b"
      by simp
    from checkLoginAttempt_blocked [OF this b(2)] 1 show ?thesis by simp
  qed
  show ?thesis
    using b 1 2 by (auto simp: journal_RateLimiter_check)
qed

theorem blocked_account_decides_check_witness:
  "isAccountBlocked blockedAlice 2000 ''alice''
   \<and> fst (checkLoginAttempt blockedAlice 2000 ''alice'' ''198.51.100.7'')
       = \<lparr>allowed = False, attemptsRemaining = 0, blockedUntil = Some 7201000, isBlocked = True\<rparr>"
proof -
  have blocked: "isAccountBlocked blockedAlice 2000 ''alice''"
    using blockedAlice_until by (simp add: isAccountBlocked_def)
  from blocked_account_decides_check [OF blocked, of "''198.51.100.7''"] blockedAlice_until
  have "fst (checkLoginAttempt blockedAlice 2000 ''alice'' ''198.51.100.7'')
       = \<lparr>allowed = False, attemptsRemaining = 0, blockedUntil = Some 7201000, isBlocked = True\<rparr>"
    by auto
  with blocked show ?thesis by simp
qed

text \<open>
  C8 as stated fails: with the account \<open>alice\<close> blocked, \<open>checkLoginAttempt\<close> still
  calls \<open>RateLimiter.check\<close>; the call is the one entry of the journal.
\<close>

theorem blocked_account_still_consults_rate_limiter:
  "isAccountBlocked blockedAlice 2000 ''alice''
   \<and> journal (snd (checkLoginAttempt blockedAlice 2000 ''alice'' ''203.0.113.9''))
       = [RateLimiter_check_called ''login:alice'' ''203.0.113.9'']"
proof -
  have "checkLoginAttempt blockedAlice 2000 ''alice'' ''203.0.113.9''
      = (\<lparr>allowed = False, attemptsRemaining = 0, blockedUntil = Some 7201000, isBlocked = True\<rparr>,
         snd (RateLimiter_check blockedAlice 2000 (''login:'' @ ''alice'') ''203.0.113.9''
                RATE_LIMIT_CONFIG))"
    by (rule checkLoginAttempt_blocked [OF blockedAlice_until]) simp
  then show ?thesis
    using blockedAlice_until journal_blockedAlice
    by (simp add: isAccountBlocked_def journal_RateLimiter_check)
qed

section \<open>Properties of the token flows\<close>

lemma cache_cleanupAfterVerification:
  "cache (cleanupAfterVerification s uid e ip) (getVerifyKey e) = None"
  by (simp add: cleanupAfterVerification_def RateLimiter_clearAttempts_def cache_deleteRecord
      CacheService_delete_def cache_delete_def Let_def)

lemma users_cleanupAfterVerification:
  "users (cleanupAfterVerification s uid e ip) = users s"
  by (simp add: cleanupAfterVerification_def RateLimiter_clearAttempts_def deleteRecord_def
      invalidateUser_def CacheService_delete_def Let_def)

lemma cache_cleanupAfterReset:
  "cache (cleanupAfterReset s uid e ip) (getResetKey e) = None"
  by (simp add: cleanupAfterReset_def RateLimiter_clearAttempts_def cache_deleteRecord
      CacheService_delete_def cache_delete_def Let_def)

lemma users_cleanupAfterReset:
  "users (cleanupAfterReset s uid e ip) = users s"
  by (simp add: cleanupAfterReset_def RateLimiter_clearAttempts_def deleteRecord_def
      invalidateUser_def CacheService_delete_def Let_def)

lemma users_save: "users (save s u) = map (\<lambda>v. if id v = id u then u else v) (users s)"
  by (simp add: save_def)

lemma verifyEmail_success:
  assumes "CacheService_get s now (getVerifyKey (toLowerCase (trim email')))
             = Some (VString (sha256_hex tok))"
    and "first (where_email s (toLowerCase (trim email'))) = Some u"
  shows "verifyEmail s now email' tok ip
           = (Inr True,
              cleanupAfterVerification (save s (u\<lparr>emailVerifiedAt := Some now\<rparr>)) (id u)
                (toLowerCase (trim email')) (ipOrUnknown ip))"
  using assms validateToken_stored [OF assms(1)]
  by (simp add: verifyEmail_def firstOrFail_def Let_def)

lemma verifyEmail_absent:
  assumes "cache s (getVerifyKey (toLowerCase (trim email'))) = None"
  shows "verifyEmail s now email' tok ip = (Inl InvalidOrExpiredToken, s)"
  using validateToken_absent [OF CacheService_get_absent [OF assms]]
  by (simp add: verifyEmail_def Let_def)

lemma resetPassword_success:
  assumes "CacheService_get s now (getResetKey (toLowerCase (trim email')))
             = Some (VString (sha256_hex tok))"
    and "first (where_email s (toLowerCase (trim email'))) = Some u"
    and "\<not> inactiveOrDeleted u"
  shows "resetPassword s now email' tok pw ip
           = (Inr True,
              sendSuccessEmail
                (cleanupAfterReset (save s (u\<lparr>password := Scrypt pw\<rparr>)) (id u)
                   (toLowerCase (trim email')) (ipOrUnknown ip))
                (u\<lparr>password := Scrypt pw\<rparr>) (ipOrUnknown ip))"
  using assms validateToken_stored [OF assms(1)]
  by (simp add: resetPassword_def firstOrFail_def Let_def)

lemma resetPassword_absent:
  assumes "cache s (getResetKey (toLowerCase (trim email'))) = None"
  shows "resetPassword s now email' tok pw ip = (Inl InvalidOrExpiredToken, s)"
  using validateToken_absent [OF CacheService_get_absent [OF assms]]
  by (simp add: resetPassword_def Let_def)

lemma pendingVerify_digest:
  "CacheService_get pendingVerify 2000 (getVerifyKey ''bob@x.com'')
     = Some (VString (sha256_hex (token (generateSecureToken sampleEntropy))))"
  by (simp add: pendingVerify_def storeTokenHash_def CacheService_set_def cache_set_def
      CacheService_get_def cache_get_def generateSecureToken_def VERIFY_TTL_def Let_def)

lemma pendingReset_digest:
  "CacheService_get pendingReset 2000 (getResetKey ''bob@x.com'')
     = Some (VString (sha256_hex (token (generateSecureToken sampleEntropy))))"
  by (simp add: pendingReset_def storeTokenHash_def CacheService_set_def cache_set_def
      CacheService_get_def cache_get_def generateSecureToken_def RESET_TTL_def Let_def)

lemma pending_user:
  "first (where_email pendingVerify ''bob@x.com'') = Some bob"
  "first (where_email pendingReset ''bob@x.com'') = Some bob"
  by (simp_all add: pendingVerify_def pendingReset_def storeTokenHash_def CacheService_set_def
      where_email_def bobOnly_def initialState_def bob_def)

lemma bob_active: "\<not> inactiveOrDeleted bob"
  by (simp add: inactiveOrDeleted_def bob_def)

text \<open>
  C2, as the code has it.  For a valid pending token whose account is found by the
  normalised e-mail (and, for a password reset, is active and not deleted), completing
  the flow twice with the same plaintext succeeds exactly once: the first call performs
  the mutation (\<open>emailVerifiedAt\<close> set, or the new password stored) and deletes the
  stored digest; the second call, whenever it is made, fails with
  \<open>InvalidOrExpiredToken\<close> and changes nothing.
\<close>

theorem confirm_twice_succeeds_once:
  "(CacheService_get s now (getVerifyKey (toLowerCase (trim email')))
        = Some (VString (sha256_hex token'))
     \<and> first (where_email s (toLowerCase (trim email'))) = Some u
    \<longrightarrow> (let r = verifyEmail s now email' token' ip
         in fst r = Inr True
          \<and> users (snd r)
              = map (\<lambda>v. if id v = id u then u\<lparr>emailVerifiedAt := Some now\<rparr> else v) (users s)
          \<and> cache (snd r) (getVerifyKey (toLowerCase (trim email'))) = None
          \<and> (\<forall>t ip2. verifyEmail (snd r) t email' token' ip2
                        = (Inl InvalidOrExpiredToken, snd r))))
   \<and> (CacheService_get s now (getResetKey (toLowerCase (trim email')))
        = Some (VString (sha256_hex token'))
     \<and> first (where_email s (toLowerCase (trim email'))) = Some u
     \<and> \<not> inactiveOrDeleted u
    \<longrightarrow> (let r = resetPassword s now email' token' password' ip
         in fst r = Inr True
          \<and> users (snd r)
              = map (\<lambda>v. if id v = id u then u\<lparr>password := Scrypt password'\<rparr> else v) (users s)
          \<and> cache (snd r) (getResetKey (toLowerCase (trim email'))) = None
          \<and> (\<forall>t ip2. resetPassword (snd r) t email' token' password' ip2
                        = (Inl InvalidOrExpiredToken, snd r))))"
proof (intro conjI impI)
  assume a: "CacheService_get s now (getVerifyKey (toLowerCase (trim email')))
        = Some (VString (sha256_hex token'))
     \<and> first (where_email s (toLowerCase (trim email'))) = Some u"
  then have r: "verifyEmail s now email' token' ip
           = (Inr True,
              cleanupAfterVerification (save s (u\<lparr>emailVerifiedAt := Some now\<rparr>)) (id u)
                (toLowerCase (trim email')) (ipOrUnknown ip))"
    by (simp add: verifyEmail_success)
  show "let r = verifyEmail s now email' token' ip
         in fst r = Inr True
          \<and> users (snd r)
              = map (\<lambda>v. if id v = id u then u\<lparr>emailVerifiedAt := Some now\<rparr> else v) (users s)
          \<and> cache (snd r) (getVerifyKey (toLowerCase (trim email'))) = None
          \<and> (\<forall>t ip2. verifyEmail (snd r) t email' token' ip2
                        = (Inl InvalidOrExpiredToken, snd r))"
    unfolding Let_def r
    by (simp add: users_cleanupAfterVerification users_save cache_cleanupAfterVerification
        verifyEmail_absent)
next
  assume a: "CacheService_get s now (getResetKey (toLowerCase (trim email')))
        = Some (VString (sha256_hex token'))
     \<and> first (where_email s (toLowerCase (trim email'))) = Some u
     \<and> \<not> inactiveOrDeleted u"
  then have r: "resetPassword s now email' token' password' ip
           = (Inr True,
              sendSuccessEmail
                (cleanupAfterReset (save s (u\<lparr>password := Scrypt password'\<rparr>)) (id u)
                   (toLowerCase (trim email')) (ipOrUnknown ip))
                (u\<lparr>password := Scrypt password'\<rparr>) (ipOrUnknown ip))"
    by (simp add: resetPassword_success)
  have c: "cache (sendSuccessEmail x y z) = cache x" "users (sendSuccessEmail x y z) = users x"
    for x y z
    by (simp_all add: sendSuccessEmail_def EmailService_send_def)
  show "let r = resetPassword s now email' token' password' ip
         in fst r = Inr True
          \<and> users (snd r)
              = map (\<lambda>v. if id v = id u then u\<lparr>password := Scrypt password'\<rparr> else v) (users s)
          \<and> cache (snd r) (getResetKey (toLowerCase (trim email'))) = None
          \<and> (\<forall>t ip2. resetPassword (snd r) t email' token' password' ip2
                        = (Inl InvalidOrExpiredToken, snd r))"
    unfolding Let_def r
    by (simp add: c users_cleanupAfterReset users_save cache_cleanupAfterReset
        resetPassword_absent)
qed

theorem confirm_twice_succeeds_once_witness:
  "fst (verifyEmail pendingVerify 2000 ''bob@x.com'' (token (generateSecureToken sampleEntropy))
          None) = Inr True
   \<and> fst (verifyEmail
            (snd (verifyEmail pendingVerify 2000 ''bob@x.com''
                    (token (generateSecureToken sampleEntropy)) None))
            3000 ''bob@x.com'' (token (generateSecureToken sampleEntropy)) None)
       = Inl InvalidOrExpiredToken
   \<and> fst (resetPassword pendingReset 2000 ''bob@x.com''
            (token (generateSecureToken sampleEntropy)) ''new-password'' None) = Inr True
   \<and> fst (resetPassword
            (snd (resetPassword pendingReset 2000 ''bob@x.com''
                    (token (generateSecureToken sampleEntropy)) ''new-password'' None))
            3000 ''bob@x.com'' (token (generateSecureToken sampleEntropy)) ''new-password'' None)
       = Inl InvalidOrExpiredToken"
  using confirm_twice_succeeds_once
    [of pendingVerify 2000 "''bob@x.com''" "token (generateSecureToken sampleEntropy)" bob None
        "''new-password''"]
    confirm_twice_succeeds_once
    [of pendingReset 2000 "''bob@x.com''" "token (generateSecureToken sampleEntropy)" bob None
        "''new-password''"]
    pendingVerify_digest pendingReset_digest pending_user bob_active
  by (simp add: Let_def)

text \<open>
  C2 as stated fails: Bob holds a valid pending reset token and his account has been
  deactivated; \<open>validateToken\<close> accepts the token, and both calls of \<open>resetPassword\<close>
  fail with \<open>InactiveUser\<close>, leaving the digest in place.  The flow succeeds zero
  times, and the second failure is not \<open>InvalidOrExpiredToken\<close>.
\<close>

theorem reset_twice_on_deactivated_account_never_succeeds:
  "validateToken deactivated 2000 ''bob@x.com'' (token (generateSecureToken sampleEntropy))
       (getResetKey ''bob@x.com'') = Inr True
   \<and> resetPassword deactivated 2000 ''bob@x.com'' (token (generateSecureToken sampleEntropy))
        ''new-password'' None = (Inl InactiveUser, deactivated)
   \<and> resetPassword deactivated 3000 ''bob@x.com'' (token (generateSecureToken sampleEntropy))
        ''new-password'' None = (Inl InactiveUser, deactivated)"
proof -
  have g: "CacheService_get deactivated t (getResetKey ''bob@x.com'')
             = Some (VString (sha256_hex (token (generateSecureToken sampleEntropy))))"
    if "t < 901000" for t
    using that
    by (simp add: deactivated_def pendingReset_def save_def storeTokenHash_def
        CacheService_set_def cache_set_def CacheService_get_def cache_get_def
        generateSecureToken_def RESET_TTL_def Let_def)
  have u: "first (where_email deactivated ''bob@x.com'') = Some (bob\<lparr>isActive := False\<rparr>)"
    by (simp add: deactivated_def pendingReset_def save_def storeTokenHash_def
        CacheService_set_def where_email_def bobOnly_def initialState_def bob_def)
  have v: "validateToken deactivated t ''bob@x.com'' (token (generateSecureToken sampleEntropy))
       (getResetKey ''bob@x.com'') = Inr True" if "t < 901000" for t
    by (rule validateToken_stored [OF g [OF that]])
  show ?thesis
    using v [of 2000] v [of 3000] u
    by (simp add: resetPassword_def firstOrFail_def inactiveOrDeleted_def Let_def)
qed

lemma throttled_user:
  "first (where_email throttledVerify ''bob@x.com'') = Some bob"
  "first (where_email throttledReset ''bob@x.com'') = Some bob"
  by (simp_all add: throttledVerify_def throttledReset_def CacheService_set_def where_email_def
      bobOnly_def initialState_def bob_def)

lemma throttled_journal: "journal throttledVerify = []" "journal throttledReset = []"
  by (simp_all add: throttledVerify_def throttledReset_def CacheService_set_def bobOnly_def
      initialState_def)

lemma throttled_check:
  "fst (RateLimiter_check throttledVerify 2000 ''verify:bob@x.com'' ''203.0.113.9'' sampleConfig)
     = \<lparr>allowed = False, attemptsRemaining = 0, blockedUntil = Some 1801000\<rparr>"
  "fst (RateLimiter_check throttledReset 2000 ''reset:bob@x.com'' ''203.0.113.9'' sampleConfig)
     = \<lparr>allowed = False, attemptsRemaining = 0, blockedUntil = Some 1801000\<rparr>"
  by (simp_all add: RateLimiter_check_def throttledVerify_def throttledReset_def get_number_def
      CacheService_get_def cache_get_def CacheService_set_def cache_set_def Let_def)

lemma emailOrUsername_bob: "emailOrUsername bob = ''bob@x.com''"
  by (simp add: emailOrUsername_def bob_def)

text \<open>
  C9, as the code has it.  When the rate-limit check does not allow the request, an
  e-mail verification request returns \<open>false\<close> having done nothing but the check: no
  token is stored and nothing is sent.  A password-reset request for an account that is
  found and active returns \<open>false\<close> and stores no token either, but it does send one
  message, the notice of excessive reset attempts, to the account's address.
\<close>

theorem throttled_request_returns_false:
  "(\<not> allowed (fst (RateLimiter_check s now
                       (''verify:'' @ toLowerCase (trim (emailOrUsername u))) (ipOrUnknown ip')
                       config))
    \<longrightarrow> (let r = requestEmailVerification config s now u ip' entropy
         in fst r = False
          \<and> journal (snd r)
              = journal s @ [RateLimiter_check_called
                               (''verify:'' @ toLowerCase (trim (emailOrUsername u)))
                               (ipOrUnknown ip')]
          \<and> cache (snd r) (getVerifyKey (toLowerCase (trim (emailOrUsername u))))
              = cache s (getVerifyKey (toLowerCase (trim (emailOrUsername u))))))
   \<and> (first (where_email s (toLowerCase (trim email'))) = Some u
      \<and> \<not> inactiveOrDeleted u
      \<and> \<not> allowed (fst (RateLimiter_check s now (''reset:'' @ toLowerCase (trim email'))
                           (ipOrUnknown ip') config))
    \<longrightarrow> (let r = requestPasswordReset config s now email' ip' entropy
         in fst r = Inr False
          \<and> journal (snd r)
              = journal s
                @ [RateLimiter_check_called (''reset:'' @ toLowerCase (trim email'))
                     (ipOrUnknown ip'),
                   EmailService_send_called
                     \<lparr>to = emailOrUsername u, body = ResetAttemptsExceeded (ipOrUnknown ip')\<rparr>]
          \<and> cache (snd r) (getResetKey (toLowerCase (trim email')))
              = cache s (getResetKey (toLowerCase (trim email')))))"
proof (intro conjI impI)
  let ?iv = "''verify:'' @ toLowerCase (trim (emailOrUsername u))"
  assume "\<not> allowed (fst (RateLimiter_check s now ?iv (ipOrUnknown ip') config))"
  then have "requestEmailVerification config s now u ip' entropy
               = (False, snd (RateLimiter_check s now ?iv (ipOrUnknown ip') config))"
    by (simp add: requestEmailVerification_def Let_def case_prod_unfold)
  then show "let r = requestEmailVerification config s now u ip' entropy
         in fst r = False
          \<and> journal (snd r) = journal s @ [RateLimiter_check_called ?iv (ipOrUnknown ip')]
          \<and> cache (snd r) (getVerifyKey (toLowerCase (trim (emailOrUsername u))))
              = cache s (getVerifyKey (toLowerCase (trim (emailOrUsername u))))"
    by (simp add: Let_def journal_RateLimiter_check cache_RateLimiter_check_other)
next
  let ?ir = "''reset:'' @ toLowerCase (trim email')"
  assume "first (where_email s (toLowerCase (trim email'))) = Some u
      \<and> \<not> inactiveOrDeleted u
      \<and> \<not> allowed (fst (RateLimiter_check s now ?ir (ipOrUnknown ip') config))"
  then have "requestPasswordReset config s now email' ip' entropy
               = (Inr False,
                  sendBlockedNotification (snd (RateLimiter_check s now ?ir (ipOrUnknown ip') config))
                    u (ipOrUnknown ip'))"
    by (simp add: requestPasswordReset_def firstOrFail_def Let_def case_prod_unfold)
  then show "let r = requestPasswordReset config s now email' ip' entropy
         in fst r = Inr False
          \<and> journal (snd r)
              = journal s
                @ [RateLimiter_check_called ?ir (ipOrUnknown ip'),
                   EmailService_send_called
                     \<lparr>to = emailOrUsername u, body = ResetAttemptsExceeded (ipOrUnknown ip')\<rparr>]
          \<and> cache (snd r) (getResetKey (toLowerCase (trim email')))
              = cache s (getResetKey (toLowerCase (trim email')))"
    by (simp add: Let_def sendBlockedNotification_def EmailService_send_def
        journal_RateLimiter_check cache_RateLimiter_check_other)
qed

theorem throttled_request_returns_false_witness:
  "\<not> allowed (fst (RateLimiter_check throttledVerify 2000 ''verify:bob@x.com'' ''203.0.113.9''
                      sampleConfig))
   \<and> fst (requestEmailVerification sampleConfig throttledVerify 2000 bob (Some ''203.0.113.9'')
            sampleEntropy) = False
   \<and> journal (snd (requestEmailVerification sampleConfig throttledVerify 2000 bob
                     (Some ''203.0.113.9'') sampleEntropy))
       = [RateLimiter_check_called ''verify:bob@x.com'' ''203.0.113.9'']
   \<and> \<not> allowed (fst (RateLimiter_check throttledReset 2000 ''reset:bob@x.com'' ''203.0.113.9''
                        sampleConfig))
   \<and> cache (snd (requestPasswordReset sampleConfig throttledReset 2000 ''bob@x.com''
                   (Some ''203.0.113.9'') sampleEntropy)) (getResetKey ''bob@x.com'')
       = cache throttledReset (getResetKey ''bob@x.com'')"
  using throttled_request_returns_false
    [of throttledVerify 2000 bob "Some ''203.0.113.9''" sampleConfig sampleEntropy
        "''bob@x.com''"]
    throttled_request_returns_false
    [of throttledReset 2000 bob "Some ''203.0.113.9''" sampleConfig sampleEntropy
        "''bob@x.com''"]
    throttled_check throttled_user throttled_journal bob_active
  by (simp add: Let_def emailOrUsername_bob ipOrUnknown_def)

text \<open>
  C9 as stated fails: a throttled password-reset request for Bob returns \<open>false\<close>, and
  a notification is sent to him.
\<close>

theorem throttled_reset_sends_notification:
  "fst (requestPasswordReset sampleConfig throttledReset 2000 ''bob@x.com'' (Some ''203.0.113.9'')
          sampleEntropy) = Inr False
   \<and> journal (snd (requestPasswordReset sampleConfig throttledReset 2000 ''bob@x.com''
                     (Some ''203.0.113.9'') sampleEntropy))
       = [RateLimiter_check_called ''reset:bob@x.com'' ''203.0.113.9'',
          EmailService_send_called
            \<lparr>to = ''bob@x.com'', body = ResetAttemptsExceeded ''203.0.113.9''\<rparr>]"
  using throttled_user(2) bob_active throttled_check(2)
  by (simp add: requestPasswordReset_def firstOrFail_def Let_def case_prod_unfold
      ipOrUnknown_def sendBlockedNotification_def EmailService_send_def
      journal_RateLimiter_check throttled_journal emailOrUsername_bob)

section \<open>Properties of the login\<close>

lemma journal_recordLoginAttempt_failure:
  "RateLimiter_recordAttempt_called (''login:'' @ identifier) ip
     \<in> set (journal (recordLoginAttempt s now identifier ip False un ue))"
  by (simp add: recordLoginAttempt_def RateLimiter_recordAttempt_def blockAccount_def
      sendAccountBlockedEmail_def EmailService_send_def CacheService_set_def Let_def
      split: option.splits)

text \<open>
  A login for an unknown user, or for a user who is inactive or deleted, records a failed
  attempt and then raises \<open>InvalidCredentials\<close>.
\<close>

lemma login_unknown_or_inactive_records_attempt:
  assumes "email' \<noteq> []" "password' \<noteq> []"
    and "allowed (fst (checkLoginAttempt s now (toLowerCase (trim email')) (ipOrUnknown ip')))"
    and "s1 = snd (checkLoginAttempt s now (toLowerCase (trim email')) (ipOrUnknown ip'))"
    and "first (where_email_orWhere_username s1 email') = None
         \<or> (\<exists>u. first (where_email_orWhere_username s1 email') = Some u
                \<and> \<not> (isActive u \<and> isDeleted u \<noteq> Some True))"
  shows "login s now email' password' ip'
           = (Inl InvalidCredentials,
              recordLoginAttempt s1 now (toLowerCase (trim email')) (ipOrUnknown ip') False
                None None)"
  using assms
  by (auto simp: login_def Let_def case_prod_unfold UserService_isActive_def)

text \<open>
  A login with a wrong password for a user who is found and active raises what
  \<open>verifyCredentials\<close> raises; the state is the one left by \<open>checkLoginAttempt\<close>.
\<close>

lemma login_wrong_password_raises:
  assumes "email' \<noteq> []" "password' \<noteq> []"
    and "allowed (fst (checkLoginAttempt s now (toLowerCase (trim email')) (ipOrUnknown ip')))"
    and "s1 = snd (checkLoginAttempt s now (toLowerCase (trim email')) (ipOrUnknown ip'))"
    and "first (where_email_orWhere_username s1 email') = Some u"
    and "isActive u" "isDeleted u \<noteq> Some True"
    and "first (where_email s1 email') = Some v" "\<not> hash_verify (password v) password'"
  shows "login s now email' password' ip' = (Inl E_INVALID_CREDENTIALS, s1)"
  using assms
  by (simp add: login_def Let_def case_prod_unfold UserService_isActive_def
      verifyCredentials_def)

text \<open>
  C4 fails on the code for a password mismatch.  Bob is active and his password is not
  \<open>wrong-password\<close>: the login raises \<open>E_INVALID_CREDENTIALS\<close> (status 400), not
  \<open>InvalidCredentials\<close>, and the only call made to the rate limiter is the check; no
  attempt is recorded and the cache is unchanged.
\<close>

theorem login_wrong_password_records_no_attempt:
  "login bobOnly 2000 ''bob@x.com'' ''wrong-password'' (Some ''203.0.113.9'')
     = (Inl E_INVALID_CREDENTIALS,
        bobOnly\<lparr>journal := [RateLimiter_check_called ''login:bob@x.com'' ''203.0.113.9'']\<rparr>)"
  by (simp add: login_def ipOrUnknown_def checkLoginAttempt_def RateLimiter_check_def
      isAccountBlocked_def get_number_def CacheService_get_def cache_get_def windowExpired_def
      bobOnly_def initialState_def bob_def where_email_orWhere_username_def where_email_def
      UserService_isActive_def verifyCredentials_def hash_verify_def Let_def
      RATE_LIMIT_CONFIG_def MAX_ATTEMPTS_def)

section \<open>Properties of the key-usage limiter\<close>

lemma keyFailed1_eq:
  "keyFailed1 = [rateKey ''203.0.113.9'' ''k'' \<mapsto>
       \<lparr>val = \<lparr>attempts = 1, firstAttempt = 1000, dataBlockedUntil = None\<rparr>,
        expiresAt = 61000\<rparr>]"
  by (simp add: keyFailed1_def incrementRateLimit_def cache_get_def cache_set_def)

lemma keyFailed5_eq:
  "keyFailed5 = [rateKey ''203.0.113.9'' ''k'' \<mapsto>
       \<lparr>val = \<lparr>attempts = 5, firstAttempt = 1000, dataBlockedUntil = Some 905000\<rparr>,
        expiresAt = 905000\<rparr>]"
  by (simp add: keyFailed5_def keyFailed1_eq incrementRateLimit_def cache_get_def cache_set_def
      AppKey_MAX_ATTEMPTS_def BLOCK_DURATION_def Let_def del: One_nat_def)

text \<open>
  C5 fails on the code.  \<open>checkRateLimit\<close> answers \<open>true\<close> for a live record whatever
  it holds: the same for one recorded attempt as for five with the block set, so the
  answer is not "attempts below the maximum".  Once the window of 60 seconds since the
  first attempt has passed it deletes the record and answers \<open>false\<close>, as it does when
  there is no record, although the block set at 5000 runs until 905000.
\<close>

theorem checkRateLimit_ignores_attempts_and_block:
  "checkRateLimit Map.empty 2000 ''203.0.113.9'' ''k'' = (False, Map.empty)
   \<and> checkRateLimit keyFailed1 2000 ''203.0.113.9'' ''k'' = (True, keyFailed1)
   \<and> checkRateLimit keyFailed5 6000 ''203.0.113.9'' ''k'' = (True, keyFailed5)
   \<and> cache_get keyFailed5 62000 (rateKey ''203.0.113.9'' ''k'')
       = Some \<lparr>attempts = 5, firstAttempt = 1000, dataBlockedUntil = Some 905000\<rparr>
   \<and> checkRateLimit keyFailed5 62000 ''203.0.113.9'' ''k'' = (False, Map.empty)"
  by (simp add: keyFailed1_eq keyFailed5_eq checkRateLimit_def cache_get_def cache_delete_def
      RATE_LIMIT_WINDOW_def)

end
